theory Spec2Isabelle
  imports Complex_Main "HOL-Library.Multiset"
begin

section \<open>Data model\<close>

text \<open>
  A cell of a numeric table is a float.  Only the distinction between a missing value,
  the two infinities and a finite number matters for the pipeline's cleaning and clipping
  steps, so a cell is one of these four; the finite payload is a real number.  Arithmetic
  on cells (relative change, monthly aggregates) is floating-point library code and is a
  parameter of the functions that use it.
\<close>

datatype cell = NaN | NInf | Fin real | PInf

text \<open>
  A timestamp is a count of nanoseconds since 1970-01-01 00:00; a calendar date is a count
  of days since 1970-01-01.
\<close>

type_synonym timestamp = int
type_synonym date = int

datatype index_kind = DatetimeIndex | OtherIndex

text \<open>
  A DataFrame, row by row: the kind of its index, the column names in order, and for each
  row its index label and its cells (one per column).  For a \<open>DatetimeIndex\<close> the label is
  the timestamp.  A Series is the same with one cell per row.
\<close>

record frame =
  idx_kind :: index_kind
  columns :: "string list"
  rows :: "(timestamp \<times> cell list) list"

type_synonym series = "(timestamp \<times> cell) list"

datatype error =
    FileNotFoundError
  | ValueError
  | TypeError
  | AssertionError
  | IndexError
  | ExternalError string

definition index_of :: "frame \<Rightarrow> timestamp list" where
  "index_of df = map fst (rows df)"

definition wf_frame :: "frame \<Rightarrow> bool" where
  "wf_frame df \<longleftrightarrow>
     distinct (columns df) \<and> list_all (\<lambda>r. length (snd r) = length (columns df)) (rows df)"

text \<open>\<open>str.startswith\<close>.\<close>

definition startswith :: "string \<Rightarrow> string \<Rightarrow> bool" where
  "startswith s p \<longleftrightarrow> take (length p) s = p"

text \<open>Position of the first column with a given name.\<close>

fun col_pos :: "string \<Rightarrow> string list \<Rightarrow> nat" where
  "col_pos c [] = 0"
| "col_pos c (x # xs) = (if x = c then 0 else Suc (col_pos c xs))"

definition cell_at :: "cell list \<Rightarrow> nat \<Rightarrow> cell" where
  "cell_at vs i = (if i < length vs then vs ! i else NaN)"

text \<open>\<open>df[c]\<close> for a column name, and \<open>df[cs]\<close> for a list of column names.\<close>

definition get_col :: "frame \<Rightarrow> string \<Rightarrow> series" where
  "get_col df c = map (\<lambda>(t, vs). (t, cell_at vs (col_pos c (columns df)))) (rows df)"

definition select_cols :: "frame \<Rightarrow> string list \<Rightarrow> frame" where
  "select_cols df cs =
     df\<lparr>columns := cs,
        rows := map (\<lambda>(t, vs). (t, map (\<lambda>c. cell_at vs (col_pos c (columns df))) cs)) (rows df)\<rparr>"

text \<open>
  \<open>Series.shift(periods)\<close>: the labels stay, the values move down by \<open>periods\<close> rows (up
  when it is negative), and the vacated rows hold NaN.
\<close>

definition shift_vals :: "int \<Rightarrow> cell list \<Rightarrow> cell list" where
  "shift_vals p vs =
     (if 0 \<le> p
      then replicate (min (nat p) (length vs)) NaN @ take (length vs - nat p) vs
      else drop (nat (- p)) vs @ replicate (min (nat (- p)) (length vs)) NaN)"

definition shift :: "int \<Rightarrow> series \<Rightarrow> series" where
  "shift p s = zip (map fst s) (shift_vals p (map snd s))"

text \<open>
  \<open>xs[:stop]\<close> as Python slices: a negative stop counts from the end, and a stop beyond
  either end is clamped.
\<close>

definition py_stop :: "nat \<Rightarrow> int \<Rightarrow> nat" where
  "py_stop n stop = (if stop < 0 then nat (max 0 (int n + stop)) else min n (nat stop))"

definition iloc_upto :: "int \<Rightarrow> 'a list \<Rightarrow> 'a list" where
  "iloc_upto stop xs = take (py_stop (length xs) stop) xs"

section \<open>LabelAligner: \<open>make_xy\<close>\<close>

definition target_col_of :: "string \<Rightarrow> string" where
  "target_col_of target_ticker = ''ret_'' @ target_ticker"

definition feature_cols_of :: "frame \<Rightarrow> string \<Rightarrow> string list" where
  "feature_cols_of features_df target_col =
     filter (\<lambda>c. startswith c ''ret_'' \<and> c \<noteq> target_col) (columns features_df)"

definition make_xy :: "frame \<Rightarrow> string \<Rightarrow> int \<Rightarrow> error + (frame \<times> series \<times> string list)" where
  "make_xy features_df target_ticker horizon_days =
     (let target_col = target_col_of target_ticker in
      if target_col \<notin> set (columns features_df) then Inl ValueError
      else
        let y = shift (- horizon_days) (get_col features_df target_col);
            feature_cols = feature_cols_of features_df target_col;
            X = select_cols features_df feature_cols;
            X' = X\<lparr>rows := iloc_upto (- horizon_days) (rows X)\<rparr>;
            y' = iloc_upto (- horizon_days) y
        in if index_of X' = map fst y' then Inr (X', y', feature_cols)
           else Inl AssertionError)"

definition ex_three_rows :: frame where
  "ex_three_rows = \<lparr>idx_kind = DatetimeIndex, columns = [''ret_A'', ''ret_B''],
                    rows = [(0, [Fin 1, Fin 2]), (1, [Fin 3, Fin 4]), (2, [Fin 5, Fin 6])]\<rparr>"

definition ex_one_row :: frame where
  "ex_one_row = \<lparr>idx_kind = DatetimeIndex, columns = [''ret_A'', ''ret_B''],
                 rows = [(0, [Fin 1, Fin 2])]\<rparr>"

section \<open>ChronoSplitter: \<open>time_split\<close>\<close>

text \<open>
  The boundaries \<open>train_end\<close> and \<open>val_end\<close> are calendar dates (strings of the form
  \<open>YYYY-MM-DD\<close> in the source).  As the end of a label slice, a date string stands for the
  last nanosecond of that day; \<open>pd.Timestamp(d) + pd.Timedelta(days=1)\<close> is midnight of the
  next day.
\<close>

definition ns_per_day :: int where
  "ns_per_day = 86400000000000"

definition date_of :: "timestamp \<Rightarrow> date" where
  "date_of t = t div ns_per_day"

definition day_start :: "date \<Rightarrow> timestamp" where
  "day_start d = d * ns_per_day"

definition day_end :: "date \<Rightarrow> timestamp" where
  "day_end d = (d + 1) * ns_per_day - 1"

definition ensure_datetime_index :: "frame \<Rightarrow> error + unit" where
  "ensure_datetime_index df = (if idx_kind df \<noteq> DatetimeIndex then Inl TypeError else Inr ())"

text \<open>
  \<open>df.sort_index()\<close>: the rows in ascending order of their label (a new frame).  Rows
  with equal labels keep their order here; the properties below do not depend on the
  order among equal labels.
\<close>

definition sort_index :: "frame \<Rightarrow> frame" where
  "sort_index df = df\<lparr>rows := sort_key fst (rows df)\<rparr>"

text \<open>
  \<open>df.loc[lo:hi]\<close> on a frame whose index is sorted: the rows from the first label
  \<open>\<ge> lo\<close> up to and including the last label \<open>\<le> hi\<close>, located by position;
  an absent bound is open.  A start position beyond the stop position gives no rows.
\<close>

definition searchsorted_left :: "timestamp \<Rightarrow> timestamp list \<Rightarrow> nat" where
  "searchsorted_left v ks = length (takeWhile (\<lambda>k. k < v) ks)"

definition searchsorted_right :: "timestamp \<Rightarrow> timestamp list \<Rightarrow> nat" where
  "searchsorted_right v ks = length (takeWhile (\<lambda>k. k \<le> v) ks)"

definition loc_slice :: "timestamp option \<Rightarrow> timestamp option \<Rightarrow> frame \<Rightarrow> frame" where
  "loc_slice lo hi df =
     (let ks = index_of df;
          start = (case lo of None \<Rightarrow> 0 | Some l \<Rightarrow> searchsorted_left l ks);
          stop = (case hi of None \<Rightarrow> length ks | Some h \<Rightarrow> searchsorted_right h ks)
      in df\<lparr>rows := take (stop - start) (drop start (rows df))\<rparr>)"

definition time_split :: "frame \<Rightarrow> date \<Rightarrow> date \<Rightarrow> error + (frame \<times> frame \<times> frame)" where
  "time_split df train_end val_end =
     (case ensure_datetime_index df of
        Inl e \<Rightarrow> Inl e
      | Inr _ \<Rightarrow>
          let df' = sort_index df;
              train = loc_slice None (Some (day_end train_end)) df';
              val = loc_slice (Some (day_start (train_end + 1))) (Some (day_end val_end)) df';
              test = loc_slice (Some (day_start (val_end + 1))) None df'
          in Inr (train, val, test))"

text \<open>Membership of a label in the closed range of a slice, used to state what a slice holds.\<close>

definition in_bounds :: "timestamp option \<Rightarrow> timestamp option \<Rightarrow> timestamp \<Rightarrow> bool" where
  "in_bounds lo hi t \<longleftrightarrow>
     (case lo of None \<Rightarrow> True | Some l \<Rightarrow> l \<le> t) \<and> (case hi of None \<Rightarrow> True | Some h \<Rightarrow> t \<le> h)"

definition ex_unsorted :: frame where
  "ex_unsorted = \<lparr>idx_kind = DatetimeIndex, columns = [''ret_B'', ''y''],
     rows = [(day_start 5, [Fin 5, Fin 50]), (day_start 1, [Fin 1, Fin 10]),
             (day_start 3 + 7, [Fin 3, Fin 30]), (day_start 2, [Fin 2, Fin 20])]\<rparr>"

section \<open>Cleaning and clipping of cells\<close>

definition is_nan :: "cell \<Rightarrow> bool" where
  "is_nan c \<longleftrightarrow> c = NaN"

definition is_inf :: "cell \<Rightarrow> bool" where
  "is_inf c \<longleftrightarrow> c = PInf \<or> c = NInf"

definition is_finite :: "cell \<Rightarrow> bool" where
  "is_finite c \<longleftrightarrow> \<not> is_nan c \<and> \<not> is_inf c"

text \<open>Comparison of floats: \<open>a <= b\<close>, false as soon as one side is NaN.\<close>

fun cell_le :: "cell \<Rightarrow> cell \<Rightarrow> bool" where
  "cell_le NaN b = False"
| "cell_le a NaN = False"
| "cell_le NInf b = True"
| "cell_le a PInf = True"
| "cell_le (Fin a) (Fin b) = (a \<le> b)"
| "cell_le a b = False"

text \<open>\<open>df.replace([np.inf, -np.inf], np.nan)\<close> and \<open>df.dropna()\<close>.\<close>

definition inf_to_nan :: "cell \<Rightarrow> cell" where
  "inf_to_nan c = (if is_inf c then NaN else c)"

definition replace_inf_with_nan :: "frame \<Rightarrow> frame" where
  "replace_inf_with_nan df = df\<lparr>rows := map (\<lambda>(t, vs). (t, map inf_to_nan vs)) (rows df)\<rparr>"

definition dropna :: "frame \<Rightarrow> frame" where
  "dropna df = df\<lparr>rows := filter (\<lambda>(t, vs). \<not> list_ex is_nan vs) (rows df)\<rparr>"

text \<open>
  \<open>DataFrame.clip(lower, upper)\<close> with scalar bounds, as pandas does it: a NaN bound is
  no bound; two bounds given in the wrong order are swapped; then every cell below the
  lower bound becomes the lower bound and every cell above the upper bound becomes the
  upper bound, a NaN cell staying NaN.
\<close>

definition all_finite :: "frame \<Rightarrow> bool" where
  "all_finite df \<longleftrightarrow> list_all (\<lambda>r. list_all is_finite (snd r)) (rows df)"

definition no_nan :: "frame \<Rightarrow> bool" where
  "no_nan df \<longleftrightarrow> list_all (\<lambda>r. \<not> list_ex is_nan (snd r)) (rows df)"

definition clip_bounds :: "cell \<Rightarrow> cell \<Rightarrow> cell option \<times> cell option" where
  "clip_bounds lower upper =
     (let lo = (if is_nan lower then None else Some lower);
          hi = (if is_nan upper then None else Some upper)
      in case (lo, hi) of
           (Some l, Some u) \<Rightarrow> (Some (if cell_le l u then l else u), Some (if cell_le l u then u else l))
         | _ \<Rightarrow> (lo, hi))"

text \<open>
  The pairs of clip bounds that push every finite value to an infinity: a lower bound
  \<open>+inf\<close> with the upper bound \<open>+inf\<close> or absent (NaN), and an upper bound \<open>-inf\<close> with
  the lower bound \<open>-inf\<close> or absent.
\<close>

definition degenerate_bounds :: "cell \<Rightarrow> cell \<Rightarrow> bool" where
  "degenerate_bounds lower upper \<longleftrightarrow>
     (lower = PInf \<and> (upper = PInf \<or> upper = NaN))
     \<or> (upper = NInf \<and> (lower = NInf \<or> lower = NaN))"

definition clip_with_scalar :: "cell option \<Rightarrow> cell option \<Rightarrow> cell \<Rightarrow> cell" where
  "clip_with_scalar lo hi c =
     (let r = (case lo of None \<Rightarrow> c | Some l \<Rightarrow> if is_nan c \<or> cell_le l c then c else l)
      in case hi of None \<Rightarrow> r | Some u \<Rightarrow> if is_nan c \<or> cell_le c u then r else u)"

definition clip :: "cell \<Rightarrow> cell \<Rightarrow> cell \<Rightarrow> cell" where
  "clip lower upper c = (case clip_bounds lower upper of (lo, hi) \<Rightarrow> clip_with_scalar lo hi c)"

text \<open>
  \<open>out.loc[:, ret_cols] = out[ret_cols].clip(clip_low, clip_high)\<close> with \<open>ret_cols\<close> the
  columns whose name starts with \<open>ret_\<close>: the cells of those columns are clipped, the
  others are kept.
\<close>

definition clip_row :: "cell \<Rightarrow> cell \<Rightarrow> string list \<Rightarrow> cell list \<Rightarrow> cell list" where
  "clip_row lower upper cs vs =
     map (\<lambda>(i, v). if i < length cs \<and> startswith (cs ! i) ''ret_'' then clip lower upper v else v)
       (zip [0..<length vs] vs)"

definition clip_ret_cols :: "cell \<Rightarrow> cell \<Rightarrow> frame \<Rightarrow> frame" where
  "clip_ret_cols lower upper df =
     df\<lparr>rows := map (\<lambda>(t, vs). (t, clip_row lower upper (columns df) vs)) (rows df)\<rparr>"

section \<open>Calendar\<close>

text \<open>
  Year and month of a date in the proleptic Gregorian calendar, and the month as one
  number (\<open>12 * year + month - 1\<close>), which is what a monthly period of pandas identifies.
  The weekday of a date counts from Monday = 0; 1970-01-01 was a Thursday.
\<close>

definition civil_year_month :: "date \<Rightarrow> int \<times> int" where
  "civil_year_month d =
     (let z = d + 719468;
          era = z div 146097;
          doe = z - era * 146097;
          yoe = (doe - doe div 1460 + doe div 36524 - doe div 146096) div 365;
          doy = doe - (365 * yoe + yoe div 4 - yoe div 100);
          mp = (5 * doy + 2) div 153;
          m = (if mp < 10 then mp + 3 else mp - 9);
          y = yoe + era * 400 + (if m \<le> 2 then 1 else 0)
      in (y, m))"

definition month_of :: "timestamp \<Rightarrow> int" where
  "month_of t = (case civil_year_month (date_of t) of (y, m) \<Rightarrow> 12 * y + (m - 1))"

definition weekday :: "date \<Rightarrow> int" where
  "weekday d = (d + 3) mod 7"

section \<open>FeatureBuilder: \<open>build_features\<close>\<close>

text \<open>
  \<open>df.pct_change().add_prefix("ret_")\<close>: the first row is NaN, every later row holds the
  relative change of each column against the row before.  The floating-point operation
  \<open>rel prev cur\<close> (\<open>cur / prev - 1\<close>) is a parameter.  (pandas versions that still
  forward-fill missing prices before taking the change differ in the values of the
  returns only; no property below depends on these values.)
\<close>

definition pct_rows :: "(cell \<Rightarrow> cell \<Rightarrow> cell) \<Rightarrow> (timestamp \<times> cell list) list
    \<Rightarrow> (timestamp \<times> cell list) list" where
  "pct_rows rel rs =
     (case rs of
        [] \<Rightarrow> []
      | r # rest \<Rightarrow> (fst r, map (\<lambda>_. NaN) (snd r))
                    # map (\<lambda>(p, c). (fst c, map (\<lambda>(a, b). rel a b) (zip (snd p) (snd c)))) (zip rs rest))"

definition pct_change :: "(cell \<Rightarrow> cell \<Rightarrow> cell) \<Rightarrow> frame \<Rightarrow> frame" where
  "pct_change rel df = df\<lparr>columns := map (\<lambda>c. ''ret_'' @ c) (columns df), rows := pct_rows rel (rows df)\<rparr>"

text \<open>
  \<open>df.resample("ME").agg(["mean", "median", "std"])\<close> on a sorted frame: one row for every
  calendar month from the month of the first row to the month of the last row (also for
  months without rows), and for every column, in order, its mean, median and standard
  deviation over the rows of that month.  The aggregation \<open>agg name values\<close> is a
  parameter.  The monthly table is keyed by the month.
\<close>

definition stat_names :: "string list" where
  "stat_names = [''mean'', ''median'', ''std'']"

definition monthly_columns :: "string list \<Rightarrow> string list" where
  "monthly_columns cs = concat (map (\<lambda>t. map (\<lambda>s. t @ ''_'' @ s) stat_names) cs)"

definition resample_months :: "(timestamp \<times> cell list) list \<Rightarrow> int list" where
  "resample_months rs =
     (case rs of [] \<Rightarrow> [] | r # _ \<Rightarrow> [month_of (fst r) .. month_of (fst (last rs))])"

definition monthly_row :: "(string \<Rightarrow> cell list \<Rightarrow> cell) \<Rightarrow> nat \<Rightarrow> (timestamp \<times> cell list) list
    \<Rightarrow> int \<Rightarrow> cell list" where
  "monthly_row agg ncols rs m =
     concat (map (\<lambda>i. map (\<lambda>s. agg s (map (\<lambda>r. cell_at (snd r) i)
                                          (filter (\<lambda>r. month_of (fst r) = m) rs))) stat_names)
               [0..<ncols])"

definition monthly_table :: "(string \<Rightarrow> cell list \<Rightarrow> cell) \<Rightarrow> frame \<Rightarrow> (int \<times> cell list) list" where
  "monthly_table agg df =
     map (\<lambda>m. (m, monthly_row agg (length (columns df)) (rows df) m)) (resample_months (rows df))"

text \<open>\<open>monthly.shift(1)\<close>: the keys stay, every row of values moves down one row.\<close>

definition shift1 :: "nat \<Rightarrow> (int \<times> cell list) list \<Rightarrow> (int \<times> cell list) list" where
  "shift1 width tbl =
     (case tbl of [] \<Rightarrow> [] | _ # _ \<Rightarrow> zip (map fst tbl) (replicate width NaN # butlast (map snd tbl)))"

text \<open>
  The month-key join: \<open>daily["ym"] = month of the row\<close>, \<open>daily.join(monthly_lag1, on="ym")\<close>,
  \<open>drop(columns=["ym"])\<close>.  The join fails when a price column has the name of a monthly
  column; a price column named \<open>ym\<close> is overwritten by the key and dropped with it.  A key
  absent from the monthly table gives NaN.
\<close>

definition monthly_attached :: "(string \<Rightarrow> cell list \<Rightarrow> cell) \<Rightarrow> frame \<Rightarrow> int \<Rightarrow> cell list" where
  "monthly_attached agg df m =
     (let width = length (monthly_columns (columns df))
      in case map_of (shift1 width (monthly_table agg df)) m of
           Some ms \<Rightarrow> ms
         | None \<Rightarrow> replicate width NaN)"

definition without_ym :: "string list \<Rightarrow> 'a list \<Rightarrow> 'a list" where
  "without_ym cs vs = map snd (filter (\<lambda>(c, v). c \<noteq> ''ym'') (zip cs vs))"

definition monthly_join :: "(string \<Rightarrow> cell list \<Rightarrow> cell) \<Rightarrow> frame \<Rightarrow> error + frame" where
  "monthly_join agg df =
     (if set (''ym'' # columns df) \<inter> set (monthly_columns (columns df)) \<noteq> {} then Inl ValueError
      else Inr (df\<lparr>columns := without_ym (columns df) (columns df) @ monthly_columns (columns df),
                   rows := map (\<lambda>(t, vs). (t, without_ym (columns df) vs
                                               @ monthly_attached agg df (month_of t))) (rows df)\<rparr>))"

text \<open>\<open>pd.concat([out, rets], axis=1)\<close> of two frames with the same index.\<close>

definition concat_cols :: "frame \<Rightarrow> frame \<Rightarrow> frame" where
  "concat_cols a b =
     a\<lparr>columns := columns a @ columns b,
       rows := map (\<lambda>((t, vs), (t', ws)). (t, vs @ ws)) (zip (rows a) (rows b))\<rparr>"

definition build_features :: "(cell \<Rightarrow> cell \<Rightarrow> cell) \<Rightarrow> (string \<Rightarrow> cell list \<Rightarrow> cell) \<Rightarrow> frame
    \<Rightarrow> bool \<Rightarrow> bool \<Rightarrow> cell \<Rightarrow> cell \<Rightarrow> error + frame" where
  "build_features rel agg df_prices include_monthly clip_returns clip_low clip_high =
     (if idx_kind df_prices \<noteq> DatetimeIndex then Inl TypeError
      else
        let df = sort_index df_prices;
            rets = pct_change rel df
        in case (if include_monthly then monthly_join agg df else Inr df) of
             Inl e \<Rightarrow> Inl e
           | Inr out \<Rightarrow>
               let out1 = concat_cols out rets;
                   out2 = dropna (replace_inf_with_nan out1)
               in Inr (if clip_returns then clip_ret_cols clip_low clip_high out2 else out2))"

text \<open>The relative change on finite prices, for the examples.\<close>

fun simple_rel :: "cell \<Rightarrow> cell \<Rightarrow> cell" where
  "simple_rel (Fin p) (Fin c) =
     (if p = 0 then (if c = 0 then NaN else if 0 < c then PInf else NInf) else Fin (c / p - 1))"
| "simple_rel a b = NaN"

text \<open>An aggregation for the examples: the number of values.\<close>

definition count_agg :: "string \<Rightarrow> cell list \<Rightarrow> cell" where
  "count_agg s vs = Fin (real (length vs))"

definition ex_prices :: frame where
  "ex_prices = \<lparr>idx_kind = DatetimeIndex, columns = [''A'', ''B''],
                 rows = [(day_start 0, [Fin 1, Fin 10]), (day_start 1, [Fin 2, Fin 10]),
                         (day_start 2, [Fin 3, Fin 20])]\<rparr>"

definition ex_features :: frame where
  "ex_features = \<lparr>idx_kind = DatetimeIndex, columns = [''A'', ''B'', ''ret_A'', ''ret_B''],
                   rows = [(day_start 1, [Fin 2, Fin 10, Fin 0.2, Fin 0]),
                           (day_start 2, [Fin 3, Fin 20, Fin 0.2, Fin 0.2])]\<rparr>"

definition ex_features_inf :: frame where
  "ex_features_inf = \<lparr>idx_kind = DatetimeIndex, columns = [''A'', ''B'', ''ret_A'', ''ret_B''],
                       rows = [(day_start 1, [Fin 2, Fin 10, PInf, PInf]),
                               (day_start 2, [Fin 3, Fin 20, PInf, PInf])]\<rparr>"

text \<open>
  \<open>X.join(y.rename("y"), how="inner")\<close>: the rows of \<open>X\<close>, each extended by the value of
  \<open>y\<close> at the same label (once for every row of \<open>y\<close> with that label).  A column of
  \<open>X\<close> named \<open>y\<close> makes the join fail.
\<close>

definition join_y :: "frame \<Rightarrow> series \<Rightarrow> error + frame" where
  "join_y X y =
     (if ''y'' \<in> set (columns X) then Inl ValueError
      else Inr (X\<lparr>columns := columns X @ [''y''],
                  rows := concat (map (\<lambda>(t, vs). map (\<lambda>(t', v). (t, vs @ [v]))
                                                    (filter (\<lambda>(t', v). t' = t) y)) (rows X))\<rparr>))"

text \<open>\<open>assert_no_nan\<close>.\<close>

definition assert_no_nan :: "frame \<Rightarrow> error + unit" where
  "assert_no_nan df =
     (if 0 < length (filter is_nan (concat (map snd (rows df)))) then Inl ValueError else Inr ())"

text \<open>
  The dataset of one (target, horizon) pair in \<open>main\<close>: \<open>make_xy\<close>, the join of \<open>X\<close> and
  \<open>y\<close>, and the cleaning that follows.
\<close>

definition build_dataset :: "frame \<Rightarrow> string \<Rightarrow> int \<Rightarrow> error + (frame \<times> string list \<times> frame)" where
  "build_dataset features_df target_ticker h =
     (case make_xy features_df target_ticker h of
        Inl e \<Rightarrow> Inl e
      | Inr (X, y, feature_cols) \<Rightarrow>
          (case join_y X y of
             Inl e \<Rightarrow> Inl e
           | Inr joined \<Rightarrow>
               let data = dropna (replace_inf_with_nan joined)
               in case assert_no_nan data of
                    Inl e \<Rightarrow> Inl e
                  | Inr _ \<Rightarrow> Inr (X, feature_cols, data)))"

definition ex_two_months :: frame where
  "ex_two_months = \<lparr>idx_kind = DatetimeIndex, columns = [''A''],
     rows = [(day_start 31, [Fin 4]), (day_start 0, [Fin 1]), (day_start 32, [Fin 8]),
             (day_start 1, [Fin 2])]\<rparr>"

definition ex_two_months_features :: frame where
  "ex_two_months_features =
     \<lparr>idx_kind = DatetimeIndex, columns = [''A'', ''A_mean'', ''A_median'', ''A_std'', ''ret_A''],
      rows = [(day_start 31, [Fin 4, Fin 2, Fin 2, Fin 2, Fin 1]),
              (day_start 32, [Fin 8, Fin 2, Fin 2, Fin 2, Fin 1])]\<rparr>"

section \<open>PriceLoader: \<open>load_prices_csv\<close>\<close>

text \<open>
  What \<open>pd.read_csv\<close> hands over: the header and the rows of text cells.  The file system
  is a map from paths to files; parsing a date (\<open>pd.to_datetime\<close>) and parsing a number
  (\<open>pd.to_numeric\<close>) are library code and are parameters: \<open>None\<close> means that the text does
  not parse.  With \<open>errors="coerce"\<close> an unparsable date is NaT and an unparsable number
  is NaN.
\<close>

record raw_table =
  raw_columns :: "string list"
  raw_rows :: "string list list"

definition text_at :: "string list \<Rightarrow> nat \<Rightarrow> string" where
  "text_at r i = (if i < length r then r ! i else [])"

definition drop_nth :: "nat \<Rightarrow> 'a list \<Rightarrow> 'a list" where
  "drop_nth i xs = take i xs @ drop (Suc i) xs"

definition coerce_numeric :: "(string \<Rightarrow> cell option) \<Rightarrow> string \<Rightarrow> cell" where
  "coerce_numeric parse_float s = (case parse_float s of Some c \<Rightarrow> c | None \<Rightarrow> NaN)"

text \<open>The rows whose date parses, each with its timestamp and its remaining cells.\<close>

definition dated_rows :: "(string \<Rightarrow> timestamp option) \<Rightarrow> nat \<Rightarrow> string list list
    \<Rightarrow> (timestamp \<times> string list) list" where
  "dated_rows to_datetime i rs =
     concat (map (\<lambda>r. case to_datetime (text_at r i) of
                         None \<Rightarrow> []
                       | Some t \<Rightarrow> [(t, drop_nth i r)]) rs)"

definition load_prices_csv :: "(string \<Rightarrow> timestamp option) \<Rightarrow> (string \<Rightarrow> cell option)
    \<Rightarrow> (string \<Rightarrow> raw_table option) \<Rightarrow> string \<Rightarrow> string \<Rightarrow> error + frame" where
  "load_prices_csv to_datetime parse_float files path date_col =
     (case files path of
        None \<Rightarrow> Inl FileNotFoundError
      | Some raw \<Rightarrow>
          if date_col \<notin> set (raw_columns raw) then Inl ValueError
          else
            let i = col_pos date_col (raw_columns raw);
                kept = dated_rows to_datetime i (raw_rows raw);
                sorted_rows = sort_key fst kept
            in Inr \<lparr>idx_kind = DatetimeIndex,
                     columns = drop_nth i (raw_columns raw),
                     rows = map (\<lambda>(t, r). (t, map (coerce_numeric parse_float) r)) sorted_rows\<rparr>)"

text \<open>Parsers and a file for the examples.\<close>

definition ex_to_datetime :: "string \<Rightarrow> timestamp option" where
  "ex_to_datetime s =
     (if s = ''1970-01-02'' then Some (day_start 1)
      else if s = ''1970-01-03'' then Some (day_start 2)
      else None)"

definition ex_parse_float :: "string \<Rightarrow> cell option" where
  "ex_parse_float s =
     (if s = ''1'' then Some (Fin 1) else if s = ''2'' then Some (Fin 2)
      else if s = ''3'' then Some (Fin 3) else None)"

definition ex_files :: "string \<Rightarrow> raw_table option" where
  "ex_files p =
     (if p = ''prices.csv''
      then Some \<lparr>raw_columns = [''Date'', ''A''],
                 raw_rows = [[''1970-01-03'', ''3''], [''1970-01-02'', ''1''], [''n/a'', ''2''],
                             [''1970-01-02'', ''x'']]\<rparr>
      else None)"

section \<open>\<open>build_features\<close> on a store of tables\<close>

text \<open>
  To speak about mutation, the tables live in a store: a list of frames, a table being
  named by its position.  Every pandas call of \<open>build_features\<close> that returns a new object
  (\<open>sort_index\<close>, \<open>copy\<close>, \<open>pct_change\<close>, \<open>join\<close>/\<open>drop\<close>, \<open>concat\<close>, \<open>replace\<close>,
  \<open>dropna\<close>) appends a frame to the store; the two assignments that change a table in
  place (\<open>daily["ym"] = ...\<close> and \<open>out.loc[:, ret_cols] = ...\<close>) overwrite the frame at the
  position of that table.  The function takes the position of \<open>df_prices\<close> and returns the
  position of the result (or the error) together with the store after the call.  The
  join on the key and the drop of the key column are one step here, giving the table
  that \<open>monthly_join\<close> describes.
\<close>

type_synonym store = "frame list"

text \<open>
  \<open>daily["ym"] = daily.index.to_period("M")\<close>: a column \<open>ym\<close> holding the month of each row
  (as its number), replacing a column of that name if there is one.
\<close>

definition with_ym :: "frame \<Rightarrow> frame" where
  "with_ym df =
     (if ''ym'' \<in> set (columns df)
      then df\<lparr>rows := map (\<lambda>(t, vs). (t, vs[col_pos ''ym'' (columns df) := Fin (of_int (month_of t))]))
                         (rows df)\<rparr>
      else df\<lparr>columns := columns df @ [''ym''],
              rows := map (\<lambda>(t, vs). (t, vs @ [Fin (of_int (month_of t))])) (rows df)\<rparr>)"

definition finish_store :: "store \<Rightarrow> nat \<Rightarrow> nat \<Rightarrow> bool \<Rightarrow> cell \<Rightarrow> cell \<Rightarrow> (error + nat) \<times> store" where
  "finish_store s out rets clip_returns clip_low clip_high =
     (let m = length s;
          s1 = s @ [concat_cols (s ! out) (s ! rets)];
          s2 = s1 @ [replace_inf_with_nan (s1 ! m)];
          s3 = s2 @ [dropna (s2 ! (m + 1))];
          s4 = (if clip_returns then s3[m + 2 := clip_ret_cols clip_low clip_high (s3 ! (m + 2))]
                else s3)
      in (Inr (m + 2), s4))"

definition build_features_store :: "(cell \<Rightarrow> cell \<Rightarrow> cell) \<Rightarrow> (string \<Rightarrow> cell list \<Rightarrow> cell) \<Rightarrow> store
    \<Rightarrow> nat \<Rightarrow> bool \<Rightarrow> bool \<Rightarrow> cell \<Rightarrow> cell \<Rightarrow> (error + nat) \<times> store" where
  "build_features_store rel agg s df_prices include_monthly clip_returns clip_low clip_high =
     (if idx_kind (s ! df_prices) \<noteq> DatetimeIndex then (Inl TypeError, s)
      else
        let n = length s;
            s1 = s @ [sort_index (s ! df_prices)];
            s2 = s1 @ [s1 ! n];
            df = n + 1;
            s3 = s2 @ [pct_change rel (s2 ! df)];
            rets = n + 2;
            s4 = s3 @ [s3 ! df];
            out = n + 3
        in if include_monthly
           then
             let s5 = s4 @ [s4 ! df];
                 daily = n + 4;
                 s6 = s5[daily := with_ym (s5 ! daily)]
             in case monthly_join agg (s6 ! df) of
                  Inl e \<Rightarrow> (Inl e, s6)
                | Inr joined \<Rightarrow> finish_store (s6 @ [joined]) (n + 5) rets clip_returns clip_low clip_high
           else finish_store s4 out rets clip_returns clip_low clip_high)"

definition ex_store :: store where
  "ex_store = [ex_one_row, ex_prices]"

section \<open>Business days\<close>

text \<open>
  \<open>ts + BDay(n)\<close> as pandas computes it (\<open>BusinessDay._apply\<close> and \<open>_adjust_ndays\<close>): whole
  weeks first, then the remaining days, stepping over the weekend.  The time of day is
  kept, so the date of the result is the date of \<open>ts\<close> moved by these days.
\<close>

definition adjust_ndays :: "int \<Rightarrow> int \<Rightarrow> int \<Rightarrow> int" where
  "adjust_ndays n wday weeks =
     (let n1 = (if n \<le> 0 \<and> wday > 4 then n + 1 else n);
          n2 = n1 - 5 * weeks
      in if n2 = 0 \<and> wday > 4 then 4 - wday
         else if wday > 4 then (7 - wday) + (n2 - 1)
         else if wday + n2 \<le> 4 then n2
         else n2 + 2)"

definition bday_add :: "date \<Rightarrow> int \<Rightarrow> date" where
  "bday_add d n = (let weeks = n div 5 in d + (7 * weeks + adjust_ndays n (weekday d) weeks))"

text \<open>
  What "advanced by business days" means: the next business day after a date is the
  first later date that is not a Saturday or a Sunday.
\<close>

definition is_business_day :: "date \<Rightarrow> bool" where
  "is_business_day d \<longleftrightarrow> weekday d < 5"

definition next_business_day :: "date \<Rightarrow> date" where
  "next_business_day d =
     (if weekday d = 4 then d + 3 else if weekday d = 5 then d + 2 else d + 1)"

section \<open>TrainEvalPublishLoop\<close>

text \<open>Decimal digits of a number, for the storage keys and run names.\<close>

function string_of_nat :: "nat \<Rightarrow> string" where
  "string_of_nat n =
     (if n < 10 then [char_of (48 + n)] else string_of_nat (n div 10) @ [char_of (48 + n mod 10)])"
  by pat_completeness auto
termination
  by (relation "measure id") auto

declare string_of_nat.simps [simp del]

definition string_of_int :: "int \<Rightarrow> string" where
  "string_of_int i = (if i < 0 then ''-'' @ string_of_nat (nat (- i)) else string_of_nat (nat i))"

text \<open>The two output tables, row by row.\<close>

record pred_row =
  p_asof_date :: timestamp
  p_target_ticker :: string
  p_horizon_days :: int
  p_y_true :: cell
  p_y_pred :: cell
  p_run_id :: string
  p_created_at :: string
  p_split :: string

record forecast_row =
  f_asof_date :: date
  f_forecast_for_date :: date
  f_target_ticker :: string
  f_horizon_days :: int
  f_pred_ret_next :: cell
  f_pred_sign :: int
  f_run_id :: string
  f_created_at :: string
  f_split :: string

datatype artifact = PredictionsTest "pred_row list" | ForecastLatest "forecast_row list"

text \<open>What an iteration prints, and what it does to the outside world, in order.\<close>

datatype message =
    Banner "string list" int date bool
  | SkipWarning string int nat nat nat
  | Scores string int cell cell cell cell
  | UploadedKeys string string
  | AllDone

datatype event =
    Printed message
  | RunStarted string string
  | ParamsLogged string
  | MetricsLogged string "(string \<times> cell) list"
  | ModelLogged string
  | Uploaded string string artifact

text \<open>
  The external collaborators: the experiment tracker, the regressor, the metrics and the
  object storage.  Each call may fail; \<open>'m\<close> is the type of fitted models.
\<close>

record 'm collaborators =
  start_run :: "string \<Rightarrow> error + string"
  created_at :: "string \<Rightarrow> string"
  log_params :: "string \<Rightarrow> error option"
  fit :: "frame \<Rightarrow> series \<Rightarrow> error + 'm"
  predict :: "'m \<Rightarrow> frame \<Rightarrow> error + cell list"
  metrics :: "cell list \<Rightarrow> cell list \<Rightarrow> error + (cell \<times> cell)"
  log_metrics :: "string \<Rightarrow> (string \<times> cell) list \<Rightarrow> error option"
  log_model :: "string \<Rightarrow> 'm \<Rightarrow> error option"
  put_object :: "string \<Rightarrow> string \<Rightarrow> artifact \<Rightarrow> error option"

record config =
  cfg_train_end :: date
  cfg_val_end :: date
  cfg_min_samples :: int
  cfg_pred_bucket :: string

text \<open>
  A computation returns a value or stops with an error, and leaves the events it caused
  until then.
\<close>

type_synonym 'a run = "(error + 'a) \<times> event list"

definition lift :: "error + 'a \<Rightarrow> 'a run" where
  "lift r = (r, [])"

definition emit :: "event \<Rightarrow> unit run" where
  "emit ev = (Inr (), [ev])"

definition call :: "error option \<Rightarrow> event \<Rightarrow> unit run" where
  "call r ev = (case r of Some e \<Rightarrow> (Inl e, []) | None \<Rightarrow> (Inr (), [ev]))"

definition bnd :: "'a run \<Rightarrow> ('a \<Rightarrow> 'b run) \<Rightarrow> 'b run" where
  "bnd m f =
     (case m of
        (Inl e, t) \<Rightarrow> (Inl e, t)
      | (Inr x, t) \<Rightarrow> (case f x of (r, t') \<Rightarrow> (r, t @ t')))"

definition run_name :: "string \<Rightarrow> int \<Rightarrow> string" where
  "run_name target_ticker h = target_ticker @ ''_H'' @ string_of_int h @ ''_reg''"

definition test_key :: "string \<Rightarrow> int \<Rightarrow> string" where
  "test_key target_ticker h = target_ticker @ ''/H'' @ string_of_int h @ ''/predictions_test.csv''"

definition forecast_key :: "string \<Rightarrow> int \<Rightarrow> string" where
  "forecast_key target_ticker h = target_ticker @ ''/H'' @ string_of_int h @ ''/forecast_latest.csv''"

text \<open>\<open>pred_last > 0\<close> on floats.\<close>

definition positive :: "cell \<Rightarrow> bool" where
  "positive c = (case c of Fin x \<Rightarrow> 0 < x | PInf \<Rightarrow> True | _ \<Rightarrow> False)"

text \<open>\<open>X.iloc[[-1]]\<close>: the last row as a one-row frame; out of bounds on an empty frame.\<close>

definition iloc_last :: "frame \<Rightarrow> error + frame" where
  "iloc_last X = (if rows X = [] then Inl IndexError else Inr (X\<lparr>rows := [last (rows X)]\<rparr>))"

definition first_of :: "cell list \<Rightarrow> error + cell" where
  "first_of vs = (case vs of [] \<Rightarrow> Inl IndexError | v # _ \<Rightarrow> Inr v)"

text \<open>The table of test predictions; arrays of different lengths do not make a table.\<close>

definition pred_test_table :: "frame \<Rightarrow> cell list \<Rightarrow> string \<Rightarrow> int \<Rightarrow> string \<Rightarrow> string
    \<Rightarrow> error + pred_row list" where
  "pred_test_table test_df test_pred target_ticker h run_id created =
     (if length test_pred \<noteq> length (rows test_df) then Inl ValueError
      else Inr (map (\<lambda>((t, y), p).
                  \<lparr>p_asof_date = t, p_target_ticker = target_ticker, p_horizon_days = h,
                   p_y_true = y, p_y_pred = p, p_run_id = run_id, p_created_at = created,
                   p_split = ''test''\<rparr>)
                (zip (get_col test_df ''y'') test_pred)))"

definition forecast_table :: "timestamp \<Rightarrow> string \<Rightarrow> int \<Rightarrow> cell \<Rightarrow> string \<Rightarrow> string
    \<Rightarrow> forecast_row list" where
  "forecast_table last_asof target_ticker h pred_last run_id created =
     [\<lparr>f_asof_date = date_of last_asof,
       f_forecast_for_date = bday_add (date_of last_asof) h,
       f_target_ticker = target_ticker, f_horizon_days = h,
       f_pred_ret_next = pred_last,
       f_pred_sign = (if positive pred_last then 1 else 0),
       f_run_id = run_id, f_created_at = created, f_split = ''forecast_latest''\<rparr>]"

definition too_small :: "config \<Rightarrow> frame \<Rightarrow> frame \<Rightarrow> frame \<Rightarrow> bool" where
  "too_small cfg train_df val_df test_df \<longleftrightarrow>
     int (length (rows train_df)) < cfg_min_samples cfg
     \<or> int (length (rows val_df)) < cfg_min_samples cfg
     \<or> int (length (rows test_df)) < cfg_min_samples cfg"

text \<open>The body of the loop after the size check: fit, evaluate, publish.\<close>

definition train_eval_publish :: "'m collaborators \<Rightarrow> config \<Rightarrow> frame \<Rightarrow> string list
    \<Rightarrow> frame \<Rightarrow> frame \<Rightarrow> frame \<Rightarrow> timestamp \<Rightarrow> string \<Rightarrow> int \<Rightarrow> unit run" where
  "train_eval_publish ext cfg X feature_cols train_df val_df test_df last_asof target_ticker h =
     bnd (lift (start_run ext (run_name target_ticker h))) (\<lambda>run_id.
     bnd (emit (RunStarted (run_name target_ticker h) run_id)) (\<lambda>_.
     bnd (call (log_params ext run_id) (ParamsLogged run_id)) (\<lambda>_.
     bnd (lift (fit ext (select_cols train_df feature_cols) (get_col train_df ''y''))) (\<lambda>model.
     bnd (lift (predict ext model (select_cols val_df feature_cols))) (\<lambda>val_pred.
     bnd (lift (predict ext model (select_cols test_df feature_cols))) (\<lambda>test_pred.
     bnd (lift (metrics ext (map snd (get_col val_df ''y'')) val_pred)) (\<lambda>(val_mae, val_rmse).
     bnd (lift (metrics ext (map snd (get_col test_df ''y'')) test_pred)) (\<lambda>(test_mae, test_rmse).
     bnd (call (log_metrics ext run_id
                  [(''val_mae'', val_mae), (''val_rmse'', val_rmse),
                   (''test_mae'', test_mae), (''test_rmse'', test_rmse)])
               (MetricsLogged run_id
                  [(''val_mae'', val_mae), (''val_rmse'', val_rmse),
                   (''test_mae'', test_mae), (''test_rmse'', test_rmse)])) (\<lambda>_.
     bnd (call (log_model ext run_id model) (ModelLogged run_id)) (\<lambda>_.
     bnd (lift (pred_test_table test_df test_pred target_ticker h run_id (created_at ext run_id)))
       (\<lambda>pred_test_df.
     bnd (call (put_object ext (cfg_pred_bucket cfg) (test_key target_ticker h)
                  (PredictionsTest pred_test_df))
               (Uploaded (cfg_pred_bucket cfg) (test_key target_ticker h)
                  (PredictionsTest pred_test_df))) (\<lambda>_.
     bnd (lift (iloc_last X)) (\<lambda>x_last.
     bnd (lift (predict ext model x_last)) (\<lambda>last_pred.
     bnd (lift (first_of last_pred)) (\<lambda>pred_last.
     bnd (call (put_object ext (cfg_pred_bucket cfg) (forecast_key target_ticker h)
                  (ForecastLatest (forecast_table last_asof target_ticker h pred_last run_id
                                     (created_at ext run_id))))
               (Uploaded (cfg_pred_bucket cfg) (forecast_key target_ticker h)
                  (ForecastLatest (forecast_table last_asof target_ticker h pred_last run_id
                                     (created_at ext run_id))))) (\<lambda>_.
     bnd (emit (Printed (Scores target_ticker h val_mae val_rmse test_mae test_rmse))) (\<lambda>_.
     emit (Printed (UploadedKeys (test_key target_ticker h) (forecast_key target_ticker h)))
     )))))))))))))))))"

text \<open>One iteration of the loop, for one (target, horizon) pair.\<close>

definition run_pair :: "'m collaborators \<Rightarrow> config \<Rightarrow> frame \<Rightarrow> timestamp \<Rightarrow> string \<Rightarrow> int
    \<Rightarrow> unit run" where
  "run_pair ext cfg features_df last_asof target_ticker h =
     bnd (lift (build_dataset features_df target_ticker h)) (\<lambda>(X, feature_cols, data).
     bnd (lift (time_split data (cfg_train_end cfg) (cfg_val_end cfg))) (\<lambda>(train_df, val_df, test_df).
       if too_small cfg train_df val_df test_df
       then emit (Printed (SkipWarning target_ticker h (length (rows train_df))
                             (length (rows val_df)) (length (rows test_df))))
       else train_eval_publish ext cfg X feature_cols train_df val_df test_df last_asof
              target_ticker h))"

text \<open>
  The loop over the pairs, in order: \<open>for target_ticker in target_tickers: for h in
  range(1, horizon_max + 1)\<close>.  An error of an iteration ends the loop.
\<close>

definition loop_pairs :: "string list \<Rightarrow> int \<Rightarrow> (string \<times> int) list" where
  "loop_pairs target_tickers horizon_max =
     concat (map (\<lambda>t. map (\<lambda>h. (t, h)) [1..horizon_max]) target_tickers)"

fun training_loop :: "'m collaborators \<Rightarrow> config \<Rightarrow> frame \<Rightarrow> timestamp \<Rightarrow> (string \<times> int) list
    \<Rightarrow> unit run" where
  "training_loop ext cfg features_df last_asof [] = (Inr (), [])"
| "training_loop ext cfg features_df last_asof ((target_ticker, h) # pairs) =
     bnd (run_pair ext cfg features_df last_asof target_ticker h)
       (\<lambda>_. training_loop ext cfg features_df last_asof pairs)"

text \<open>The forecast tables uploaded by a sequence of events, in order.\<close>

fun forecast_rows_of :: "event \<Rightarrow> forecast_row list list" where
  "forecast_rows_of (Uploaded bucket key (ForecastLatest rs)) = [rs]"
| "forecast_rows_of ev = []"

definition forecast_artifacts :: "event list \<Rightarrow> forecast_row list list" where
  "forecast_artifacts trace = concat (map forecast_rows_of trace)"

text \<open>Collaborators and configurations for the examples.\<close>

definition ex_ext :: "unit collaborators" where
  "ex_ext = \<lparr>start_run = (\<lambda>name. Inr ''run1''),
             created_at = (\<lambda>run_id. ''now''),
             log_params = (\<lambda>run_id. None),
             fit = (\<lambda>X y. Inr ()),
             predict = (\<lambda>m X. Inr (map (\<lambda>r. Fin 1) (rows X))),
             metrics = (\<lambda>y p. Inr (Fin 0, Fin 0)),
             log_metrics = (\<lambda>run_id ms. None),
             log_model = (\<lambda>run_id m. None),
             put_object = (\<lambda>bucket key a. None)\<rparr>"


definition ex_cfg_any :: config where
  "ex_cfg_any = \<lparr>cfg_train_end = 0, cfg_val_end = 1, cfg_min_samples = 0,
                 cfg_pred_bucket = ''predictions''\<rparr>"

definition ex_data :: frame where
  "ex_data = \<lparr>idx_kind = DatetimeIndex, columns = [''ret_B'', ''y''],
               rows = [(day_start 1, [Fin 0, Fin 0.2])]\<rparr>"

definition ex_X :: frame where
  "ex_X = \<lparr>idx_kind = DatetimeIndex, columns = [''ret_B''], rows = [(day_start 1, [Fin 0])]\<rparr>"

section \<open>The body of \<open>main\<close>\<close>

text \<open>
  \<open>main\<close> from the loaded price table on (the reading of the environment is left out: the
  target selector, the largest horizon, the monthly switch and the clip bounds are
  arguments).  \<open>last_asof\<close> is the largest label of the cleaned feature matrix; on an empty
  matrix it is NaT, whose \<open>date()\<close> fails.
\<close>

definition last_asof_of :: "frame \<Rightarrow> error + timestamp" where
  "last_asof_of features_df =
     (case index_of features_df of [] \<Rightarrow> Inl ValueError | t # ts \<Rightarrow> Inr (fold max ts t))"

definition get_target_tickers :: "frame \<Rightarrow> string \<Rightarrow> error + string list" where
  "get_target_tickers df_prices env =
     (if env = ''ALL'' then Inr (columns df_prices)
      else if env \<notin> set (columns df_prices) then Inl ValueError
      else Inr [env])"

definition main_body :: "'m collaborators \<Rightarrow> config \<Rightarrow> (cell \<Rightarrow> cell \<Rightarrow> cell)
    \<Rightarrow> (string \<Rightarrow> cell list \<Rightarrow> cell) \<Rightarrow> frame \<Rightarrow> string \<Rightarrow> int \<Rightarrow> bool \<Rightarrow> cell \<Rightarrow> cell
    \<Rightarrow> unit run" where
  "main_body ext cfg rel agg df_prices0 target_env horizon_max include_monthly clip_low clip_high =
     bnd (lift (ensure_datetime_index df_prices0)) (\<lambda>_.
     bnd (lift (get_target_tickers (sort_index df_prices0) target_env)) (\<lambda>target_tickers.
     bnd (lift (build_features rel agg (sort_index df_prices0) include_monthly True
                  clip_low clip_high)) (\<lambda>built.
     bnd (lift (assert_no_nan (dropna (replace_inf_with_nan built)))) (\<lambda>_.
     bnd (lift (last_asof_of (dropna (replace_inf_with_nan built)))) (\<lambda>last_asof.
     bnd (emit (Printed (Banner target_tickers horizon_max (date_of last_asof) include_monthly)))
       (\<lambda>_.
     bnd (training_loop ext cfg (dropna (replace_inf_with_nan built)) last_asof
            (loop_pairs target_tickers horizon_max)) (\<lambda>_.
     emit (Printed AllDone))))))))"

text \<open>
  An input of five days: prices of two instruments, a model that predicts the first
  feature of a row, and split boundaries that leave one row in each split.
\<close>

definition ex5_prices :: frame where
  "ex5_prices = \<lparr>idx_kind = DatetimeIndex, columns = [''A'', ''B''],
     rows = [(day_start 0, [Fin 1, Fin 10]), (day_start 1, [Fin 2, Fin 10]),
             (day_start 2, [Fin 3, Fin 20]), (day_start 3, [Fin 6, Fin 20]),
             (day_start 4, [Fin 6, Fin 22])]\<rparr>"

definition ex5_features :: frame where
  "ex5_features = \<lparr>idx_kind = DatetimeIndex, columns = [''A'', ''B'', ''ret_A'', ''ret_B''],
     rows = [(day_start 1, [Fin 2, Fin 10, Fin 0.2, Fin 0]),
             (day_start 2, [Fin 3, Fin 20, Fin 0.2, Fin 0.2]),
             (day_start 3, [Fin 6, Fin 20, Fin 0.2, Fin 0]),
             (day_start 4, [Fin 6, Fin 22, Fin 0, Fin 0.1])]\<rparr>"

definition ex5_X :: frame where
  "ex5_X = \<lparr>idx_kind = DatetimeIndex, columns = [''ret_B''],
     rows = [(day_start 1, [Fin 0]), (day_start 2, [Fin 0.2]), (day_start 3, [Fin 0])]\<rparr>"

definition ex5_data :: frame where
  "ex5_data = \<lparr>idx_kind = DatetimeIndex, columns = [''ret_B'', ''y''],
     rows = [(day_start 1, [Fin 0, Fin 0.2]), (day_start 2, [Fin 0.2, Fin 0.2]),
             (day_start 3, [Fin 0, Fin 0])]\<rparr>"

definition ex5_cfg :: config where
  "ex5_cfg = \<lparr>cfg_train_end = 1, cfg_val_end = 2, cfg_min_samples = 1,
              cfg_pred_bucket = ''predictions''\<rparr>"

definition ex_first_feature :: "unit collaborators" where
  "ex_first_feature = \<lparr>start_run = (\<lambda>name. Inr ''run1''),
             created_at = (\<lambda>run_id. ''now''),
             log_params = (\<lambda>run_id. None),
             fit = (\<lambda>X y. Inr ()),
             predict = (\<lambda>m X. Inr (map (\<lambda>r. cell_at (snd r) 0) (rows X))),
             metrics = (\<lambda>y p. Inr (Fin 0, Fin 0)),
             log_metrics = (\<lambda>run_id ms. None),
             log_model = (\<lambda>run_id m. None),
             put_object = (\<lambda>bucket key a. None)\<rparr>"

section \<open>Properties of \<open>make_xy\<close>\<close>

lemma length_shift_vals: "length (shift_vals p vs) = length vs"
  by (auto simp: shift_vals_def)

lemma length_shift: "length (shift p s) = length s"
  by (simp add: shift_def length_shift_vals)

lemma map_fst_shift: "map fst (shift p s) = map fst s"
  by (simp add: shift_def length_shift_vals)

lemma length_get_col: "length (get_col df c) = length (rows df)"
  by (simp add: get_col_def)

lemma map_fst_get_col: "map fst (get_col df c) = index_of df"
  by (simp add: get_col_def index_of_def split_def)

lemma index_of_select_cols: "index_of (select_cols df cs) = index_of df"
  by (simp add: select_cols_def index_of_def split_def)

lemma make_xy_index_check:
  "index_of ((select_cols df cs)\<lparr>rows := iloc_upto k (rows (select_cols df cs))\<rparr>)
     = map fst (iloc_upto k (shift p (get_col df c)))"
proof -
  have "index_of ((select_cols df cs)\<lparr>rows := iloc_upto k (rows (select_cols df cs))\<rparr>)
          = take (py_stop (length (rows df)) k) (index_of df)"
    by (simp add: index_of_def iloc_upto_def select_cols_def take_map split_def)
  moreover have "map fst (iloc_upto k (shift p (get_col df c)))
          = take (py_stop (length (rows df)) k) (index_of df)"
    by (simp add: iloc_upto_def take_map [symmetric] map_fst_shift map_fst_get_col
        length_shift length_get_col)
  ultimately show ?thesis by simp
qed

lemma make_xy_Inr:
  assumes "target_col_of T \<in> set (columns df)"
  shows "make_xy df T h =
     Inr ((select_cols df (feature_cols_of df (target_col_of T)))
            \<lparr>rows := iloc_upto (- h) (rows (select_cols df (feature_cols_of df (target_col_of T))))\<rparr>,
          iloc_upto (- h) (shift (- h) (get_col df (target_col_of T))),
          feature_cols_of df (target_col_of T))"
  using assms make_xy_index_check by (simp add: make_xy_def Let_def)

lemma make_xy_cases:
  "make_xy df T h = Inl ValueError \<and> target_col_of T \<notin> set (columns df)
   \<or> (\<exists>X y. make_xy df T h = Inr (X, y, feature_cols_of df (target_col_of T))
        \<and> target_col_of T \<in> set (columns df))"
  using make_xy_Inr [of T df h]
  by (cases "target_col_of T \<in> set (columns df)") (auto simp: make_xy_def)

lemma py_stop_neg: "1 \<le> h \<Longrightarrow> py_stop n (- h) = nat (int n - h)"
  by (auto simp: py_stop_def)

lemma shift_up_nth:
  assumes "1 \<le> h" and "t < nat (int (length s) - h)"
  shows "snd (shift (- h) s ! t) = snd (s ! (t + nat h))"
proof -
  have len: "t + nat h < length s" using assms by linarith
  then have lt: "t < length s - nat h" by linarith
  have "snd (shift (- h) s ! t) = shift_vals (- h) (map snd s) ! t"
    using len by (simp add: shift_def length_shift_vals)
  also have "\<dots> = (drop (nat h) (map snd s) @ replicate (min (nat h) (length s)) NaN) ! t"
    using assms(1) by (simp add: shift_vals_def)
  also have "\<dots> = drop (nat h) (map snd s) ! t"
    using lt by (simp add: nth_append)
  also have "\<dots> = snd (s ! (t + nat h))"
    using len by (simp add: add.commute)
  finally show ?thesis .
qed

text \<open>
  C1 (as stated, refuted).  The claim promises \<open>len(X) = len(original) - h\<close> for every
  horizon \<open>h \<ge> 1\<close>.  On a one-row feature matrix and \<open>h = 2\<close> the slice \<open>iloc[:-2]\<close> is
  empty, so \<open>X\<close> has 0 rows, not \<open>1 - 2\<close>.
\<close>

theorem make_xy_length_counterexample:
  "make_xy ex_one_row ''A'' 2
     = Inr (\<lparr>idx_kind = DatetimeIndex, columns = [''ret_B''], rows = []\<rparr>, [], [''ret_B''])
   \<and> int (length (rows \<lparr>idx_kind = DatetimeIndex, columns = [''ret_B''], rows = []\<rparr>))
       \<noteq> int (length (rows ex_one_row)) - 2"
  by (simp add: make_xy_def ex_one_row_def target_col_of_def feature_cols_of_def startswith_def
      select_cols_def iloc_upto_def py_stop_def index_of_def shift_def shift_vals_def get_col_def
      cell_at_def Let_def)

text \<open>
  C1 (amended).  For every feature matrix that has the target's return column and every
  horizon \<open>h \<ge> 1\<close>, \<open>make_xy\<close> returns \<open>X\<close> and \<open>y\<close> with \<open>max 0 (n - h)\<close> rows each, where
  \<open>n\<close> is the number of rows of the feature matrix (so exactly \<open>n - h\<close> rows when
  \<open>h \<le> n\<close>); \<open>X.index\<close> and \<open>y.index\<close> are the same list, namely the labels of the first
  \<open>n - h\<close> rows; and \<open>y\<close> at every retained row \<open>t\<close> is the target's return at row
  \<open>t + h\<close> of the feature matrix.
\<close>

theorem make_xy_alignment:
  assumes "target_col_of T \<in> set (columns df)" and "1 \<le> h"
  shows "\<exists>X y fc. make_xy df T h = Inr (X, y, fc)
           \<and> length (rows X) = nat (int (length (rows df)) - h)
           \<and> length y = nat (int (length (rows df)) - h)
           \<and> index_of X = map fst y
           \<and> index_of X = take (nat (int (length (rows df)) - h)) (index_of df)
           \<and> (\<forall>t < length y. snd (y ! t) = snd (get_col df (target_col_of T) ! (t + nat h)))"
proof -
  let ?c = "target_col_of T"
  let ?n = "nat (int (length (rows df)) - h)"
  let ?S = "select_cols df (feature_cols_of df ?c)"
  let ?X = "?S\<lparr>rows := iloc_upto (- h) (rows ?S)\<rparr>"
  let ?y = "iloc_upto (- h) (shift (- h) (get_col df ?c))"
  have r: "make_xy df T h = Inr (?X, ?y, feature_cols_of df ?c)"
    using assms(1) by (rule make_xy_Inr)
  have n_le: "?n \<le> length (rows df)" using assms(2) by linarith
  have ly: "length ?y = ?n"
    using assms(2) n_le by (simp add: iloc_upto_def length_shift length_get_col py_stop_neg)
  have lX: "length (rows ?X) = ?n"
    using assms(2) n_le by (simp add: iloc_upto_def select_cols_def py_stop_neg)
  have ix: "index_of ?X = map fst ?y" by (rule make_xy_index_check)
  have "map fst ?y = take ?n (index_of df)"
    using assms(2)
    by (simp add: iloc_upto_def take_map [symmetric] map_fst_shift map_fst_get_col
        length_shift length_get_col py_stop_neg)
  then have ix': "index_of ?X = take ?n (index_of df)" using ix by simp
  have vals: "\<forall>t < length ?y. snd (?y ! t) = snd (get_col df ?c ! (t + nat h))"
  proof (intro allI impI)
    fix t assume "t < length ?y"
    then have t: "t < ?n" using ly by simp
    then have "?y ! t = shift (- h) (get_col df ?c) ! t"
      using assms(2) by (simp add: iloc_upto_def length_shift length_get_col py_stop_neg)
    moreover have "snd (shift (- h) (get_col df ?c) ! t) = snd (get_col df ?c ! (t + nat h))"
      using assms(2) t by (intro shift_up_nth) (simp_all add: length_get_col)
    ultimately show "snd (?y ! t) = snd (get_col df ?c ! (t + nat h))" by simp
  qed
  show ?thesis using r lX ly ix ix' vals by blast
qed

theorem make_xy_alignment_witness:
  "\<exists>X y fc. make_xy ex_three_rows ''A'' 1 = Inr (X, y, fc)
     \<and> length (rows X) = 2 \<and> length y = 2 \<and> index_of X = map fst y
     \<and> index_of X = [0, 1] \<and> snd (y ! 0) = Fin 3 \<and> snd (y ! 1) = Fin 5"
proof -
  have two: "\<And>P. (\<forall>t<2::nat. P t) \<longleftrightarrow> P 0 \<and> P 1"
    by (auto simp: less_Suc_eq numeral_2_eq_2)
  obtain X y fc where r: "make_xy ex_three_rows ''A'' 1 = Inr (X, y, fc)"
    and l: "length (rows X) = 2" "length y = 2" and i: "index_of X = map fst y"
    and j: "index_of X = take 2 (index_of ex_three_rows)"
    and v: "\<forall>t < length y. snd (y ! t) = snd (get_col ex_three_rows (target_col_of ''A'') ! (t + 1))"
    using make_xy_alignment [of "''A''" ex_three_rows 1]
    by (auto simp: ex_three_rows_def target_col_of_def)
  have "snd (y ! 0) = Fin 3" "snd (y ! 1) = Fin 5"
    using v l(2) by (simp_all add: two ex_three_rows_def target_col_of_def get_col_def cell_at_def)
  moreover have "index_of X = [0, 1]"
    using j by (simp add: ex_three_rows_def index_of_def)
  ultimately show ?thesis using r l i by blast
qed








section \<open>Properties of \<open>time_split\<close>\<close>

lemma takeWhile_sorted_filter:
  assumes "sorted (map f xs)" and "\<And>a b. a \<le> b \<Longrightarrow> P b \<Longrightarrow> P a"
  shows "takeWhile (\<lambda>x. P (f x)) xs = filter (\<lambda>x. P (f x)) xs"
  using assms(1)
proof (induction xs)
  case Nil
  then show ?case by simp
next
  case (Cons x xs)
  show ?case
  proof (cases "P (f x)")
    case True
    then show ?thesis using Cons by simp
  next
    case False
    have "\<forall>y \<in> set xs. \<not> P (f y)"
    proof
      fix y assume "y \<in> set xs"
      then have "f x \<le> f y" using Cons.prems by auto
      then show "\<not> P (f y)" using False assms(2) by blast
    qed
    then have "filter (\<lambda>x. P (f x)) xs = []" by (simp add: filter_empty_conv)
    then show ?thesis using False by simp
  qed
qed

lemma dropWhile_sorted_filter:
  assumes "sorted (map f xs)" and "\<And>a b. a \<le> b \<Longrightarrow> P b \<Longrightarrow> P a"
  shows "dropWhile (\<lambda>x. P (f x)) xs = filter (\<lambda>x. \<not> P (f x)) xs"
  using assms(1)
proof (induction xs)
  case Nil
  then show ?case by simp
next
  case (Cons x xs)
  show ?case
  proof (cases "P (f x)")
    case True
    then show ?thesis using Cons by simp
  next
    case False
    have "\<forall>y \<in> set xs. \<not> P (f y)"
    proof
      fix y assume "y \<in> set xs"
      then have "f x \<le> f y" using Cons.prems by auto
      then show "\<not> P (f y)" using False assms(2) by blast
    qed
    then have "filter (\<lambda>x. \<not> P (f x)) xs = xs" by (simp add: filter_id_conv)
    then show ?thesis using False by simp
  qed
qed

lemma takeWhile_False: "takeWhile (\<lambda>_. False) xs = []"
  by (cases xs) simp_all

lemma takeWhile_True: "takeWhile (\<lambda>_. True) xs = xs"
  by (induction xs) simp_all

lemma length_takeWhile_map: "length (takeWhile P (map f xs)) = length (takeWhile (\<lambda>x. P (f x)) xs)"
  by (simp add: takeWhile_map comp_def)

lemma drop_length_takeWhile: "drop (length (takeWhile P xs)) xs = dropWhile P xs"
  by (metis append_eq_conv_conj takeWhile_dropWhile_id)

lemma sorted_filter_map: "sorted (map f xs) \<Longrightarrow> sorted (map f (filter Q xs))"
  by (induction xs) auto

lemma length_filter_split:
  "length (filter P xs)
     = length (filter (\<lambda>x. P x \<and> Q x) xs) + length (filter (\<lambda>x. P x \<and> \<not> Q x) xs)"
  by (induction xs) auto

lemma length_filter_mono:
  "(\<And>x. P x \<Longrightarrow> Q x) \<Longrightarrow> length (filter P xs) \<le> length (filter Q xs)"
  by (induction xs) auto

lemma loc_slice_rows:
  assumes "sorted (index_of df)"
  shows "rows (loc_slice lo hi df) = filter (\<lambda>r. in_bounds lo hi (fst r)) (rows df)"
proof -
  let ?rs = "rows df"
  define Plo where "Plo = (\<lambda>t::timestamp. case lo of None \<Rightarrow> False | Some l \<Rightarrow> t < l)"
  define Phi where "Phi = (\<lambda>t::timestamp. case hi of None \<Rightarrow> True | Some h \<Rightarrow> t \<le> h)"
  have srt: "sorted (map fst ?rs)" using assms by (simp add: index_of_def)
  have dlo: "\<And>a b. a \<le> b \<Longrightarrow> Plo b \<Longrightarrow> Plo a"
    by (auto simp: Plo_def split: option.splits)
  have dhi: "\<And>a b. a \<le> b \<Longrightarrow> Phi b \<Longrightarrow> Phi a"
    by (auto simp: Phi_def split: option.splits)
  define start where "start = length (takeWhile (\<lambda>r. Plo (fst r)) ?rs)"
  define stop where "stop = length (takeWhile (\<lambda>r. Phi (fst r)) ?rs)"
  have st: "(case lo of None \<Rightarrow> 0 | Some l \<Rightarrow> searchsorted_left l (index_of df)) = start"
    by (cases lo) (simp_all add: start_def Plo_def searchsorted_left_def index_of_def
        length_takeWhile_map takeWhile_False)
  have sp: "(case hi of None \<Rightarrow> length (index_of df) | Some h \<Rightarrow> searchsorted_right h (index_of df)) = stop"
    by (cases hi) (simp_all add: stop_def Phi_def searchsorted_right_def index_of_def
        length_takeWhile_map takeWhile_True)
  have rows_eq: "rows (loc_slice lo hi df) = take (stop - start) (drop start ?rs)"
    by (simp add: loc_slice_def Let_def st sp)
  have start_eq: "start = length (filter (\<lambda>r. Plo (fst r)) ?rs)"
    unfolding start_def using takeWhile_sorted_filter [where f = fst and P = Plo, OF srt dlo] by simp
  have stop_eq: "stop = length (filter (\<lambda>r. Phi (fst r)) ?rs)"
    unfolding stop_def using takeWhile_sorted_filter [where f = fst and P = Phi, OF srt dhi] by simp
  let ?rest = "filter (\<lambda>r. \<not> Plo (fst r)) ?rs"
  have drop_eq: "drop start ?rs = ?rest"
    unfolding start_def drop_length_takeWhile using dropWhile_sorted_filter [where f = fst and P = Plo, OF srt dlo] by simp
  have srt': "sorted (map fst ?rest)" using srt by (rule sorted_filter_map)
  have rest_split: "?rest = filter (\<lambda>r. Phi (fst r)) ?rest @ filter (\<lambda>r. \<not> Phi (fst r)) ?rest"
    using takeWhile_sorted_filter [where f = fst and P = Phi, OF srt' dhi] dropWhile_sorted_filter [where f = fst and P = Phi, OF srt' dhi]
      takeWhile_dropWhile_id [of "\<lambda>r. Phi (fst r)" ?rest] by simp
  have bounds: "\<And>t. in_bounds lo hi t \<longleftrightarrow> \<not> Plo t \<and> Phi t"
    by (auto simp: in_bounds_def Plo_def Phi_def split: option.splits)
  have target: "filter (\<lambda>r. in_bounds lo hi (fst r)) ?rs = filter (\<lambda>r. Phi (fst r)) ?rest"
    by (simp add: bounds conj_commute)
  show ?thesis
  proof (cases "\<forall>t. Plo t \<longrightarrow> Phi t")
    case True
    have "length (filter (\<lambda>r. Phi (fst r)) ?rs)
            = length (filter (\<lambda>r. Phi (fst r) \<and> Plo (fst r)) ?rs)
              + length (filter (\<lambda>r. Phi (fst r) \<and> \<not> Plo (fst r)) ?rs)"
      by (rule length_filter_split)
    moreover have "filter (\<lambda>r. Phi (fst r) \<and> Plo (fst r)) ?rs = filter (\<lambda>r. Plo (fst r)) ?rs"
      using True by (intro filter_cong) auto
    ultimately have "stop - start = length (filter (\<lambda>r. Phi (fst r)) ?rest)"
      using start_eq stop_eq by (simp add: conj_commute)
    then have "take (stop - start) ?rest = filter (\<lambda>r. Phi (fst r)) ?rest"
      using rest_split by (metis append_eq_conv_conj)
    then show ?thesis using rows_eq drop_eq target by simp
  next
    case False
    then obtain t0 where t0: "Plo t0" "\<not> Phi t0" by blast
    have sub: "\<And>t. Phi t \<Longrightarrow> Plo t"
    proof -
      fix t assume "Phi t"
      then have "t \<le> t0" using t0(2) dhi by (meson linear)
      then show "Plo t" using t0(1) dlo by blast
    qed
    have "filter (\<lambda>r. Phi (fst r)) ?rest = []"
      using sub by (auto simp: filter_empty_conv)
    moreover have "length (filter (\<lambda>r. Phi (fst r)) ?rs) \<le> length (filter (\<lambda>r. Plo (fst r)) ?rs)"
      using sub by (intro length_filter_mono) auto
    then have "stop - start = 0" using start_eq stop_eq by simp
    ultimately show ?thesis using rows_eq target by simp
  qed
qed

lemma div_less_iff_pos:
  fixes t k N :: int
  assumes "0 < N"
  shows "t div N < k \<longleftrightarrow> t < k * N"
proof -
  have "(t + (- k) * N) div N = - k + t div N"
    using assms by (simp add: div_mult_self1 del: mult_minus_left)
  then have "(t - k * N) div N = t div N - k" by simp
  then have "t div N < k \<longleftrightarrow> (t - k * N) div N < 0" by simp
  also have "\<dots> \<longleftrightarrow> t - k * N < 0" using assms by (rule pos_imp_zdiv_neg_iff)
  finally show ?thesis by simp
qed

lemma ns_per_day_pos: "0 < ns_per_day"
  by (simp add: ns_per_day_def)

lemma div_le_iff_pos:
  fixes t k N :: int
  assumes "0 < N"
  shows "t div N \<le> k \<longleftrightarrow> t \<le> (k + 1) * N - 1"
  using div_less_iff_pos [OF assms, of t "k + 1"] by linarith

lemma le_div_iff_pos:
  fixes t k N :: int
  assumes "0 < N"
  shows "k \<le> t div N \<longleftrightarrow> k * N \<le> t"
  using div_less_iff_pos [OF assms, of t k] by linarith

lemma le_day_end_iff: "t \<le> day_end d \<longleftrightarrow> date_of t \<le> d"
  unfolding day_end_def date_of_def by (rule div_le_iff_pos [OF ns_per_day_pos, symmetric])

lemma day_start_le_iff: "day_start d \<le> t \<longleftrightarrow> d \<le> date_of t"
  unfolding day_start_def date_of_def by (rule le_div_iff_pos [OF ns_per_day_pos, symmetric])

lemma date_of_mono: "s \<le> t \<Longrightarrow> date_of s \<le> date_of t"
  by (simp add: date_of_def zdiv_mono1 ns_per_day_pos)

lemma sorted_sort_index: "sorted (index_of (sort_index df))"
  by (simp add: sort_index_def index_of_def sorted_sort_key)

lemma time_split_Inr:
  assumes "idx_kind df = DatetimeIndex"
  shows "time_split df te ve =
     Inr (loc_slice None (Some (day_end te)) (sort_index df),
          loc_slice (Some (day_start (te + 1))) (Some (day_end ve)) (sort_index df),
          loc_slice (Some (day_start (ve + 1))) None (sort_index df))"
  using assms by (simp add: time_split_def ensure_datetime_index_def Let_def)

lemma rows_train:
  "rows (loc_slice None (Some (day_end te)) (sort_index df))
     = filter (\<lambda>r. date_of (fst r) \<le> te) (rows (sort_index df))"
  by (simp add: loc_slice_rows [OF sorted_sort_index] in_bounds_def le_day_end_iff)

lemma day_start_succ_le_iff: "day_start (d + 1) \<le> t \<longleftrightarrow> d < date_of t"
  unfolding day_start_le_iff by linarith

lemma rows_val:
  "rows (loc_slice (Some (day_start (te + 1))) (Some (day_end ve)) (sort_index df))
     = filter (\<lambda>r. te < date_of (fst r) \<and> date_of (fst r) \<le> ve) (rows (sort_index df))"
  by (simp add: loc_slice_rows [OF sorted_sort_index] in_bounds_def le_day_end_iff
      day_start_succ_le_iff)

lemma rows_test:
  "rows (loc_slice (Some (day_start (ve + 1))) None (sort_index df))
     = filter (\<lambda>r. ve < date_of (fst r)) (rows (sort_index df))"
  by (simp add: loc_slice_rows [OF sorted_sort_index] in_bounds_def day_start_succ_le_iff)

lemma sorted_three_way:
  assumes "sorted (map f xs)" and "a \<le> (b::int)"
  shows "filter (\<lambda>x. f x \<le> a) xs @ filter (\<lambda>x. a < f x \<and> f x \<le> b) xs @ filter (\<lambda>x. b < f x) xs
           = xs"
  using assms(1)
proof (induction xs)
  case Nil
  then show ?case by simp
next
  case (Cons x xs)
  then have ih: "filter (\<lambda>x. f x \<le> a) xs @ filter (\<lambda>x. a < f x \<and> f x \<le> b) xs
                   @ filter (\<lambda>x. b < f x) xs = xs"
    and ge: "\<forall>y \<in> set xs. f x \<le> f y" by auto
  consider "f x \<le> a" | "a < f x" "f x \<le> b" | "b < f x" by linarith
  then show ?case
  proof cases
    case 1
    then show ?thesis using ih assms(2) by simp
  next
    case 2
    then have "filter (\<lambda>x. f x \<le> a) xs = []" using ge by (auto simp: filter_empty_conv)
    then show ?thesis using 2 ih by simp
  next
    case 3
    then have "filter (\<lambda>x. f x \<le> a) xs = []" "filter (\<lambda>x. a < f x \<and> f x \<le> b) xs = []"
      using ge assms(2) by (auto simp: filter_empty_conv)
    then show ?thesis using 3 ih assms(2) by simp
  qed
qed

lemma sorted_dates: "sorted (map fst xs) \<Longrightarrow> sorted (map (\<lambda>r. date_of (fst r)) xs)"
  by (induction xs) (auto intro: date_of_mono)

text \<open>
  C2.  For a frame with a time index and boundary dates \<open>train_end < val_end\<close>, \<open>time_split\<close>
  returns three slices that, one after the other, are the rows of the frame in time
  order: every row (and so every index label) is in exactly one slice, \<open>train\<close> holds
  exactly the rows dated \<open>\<le> train_end\<close>, \<open>val\<close> exactly the rows dated in
  \<open>(train_end, val_end]\<close>, and \<open>test\<close> exactly the rows dated \<open>> val_end\<close>.
\<close>

theorem time_split_partition:
  assumes "idx_kind df = DatetimeIndex" and "train_end < val_end"
  shows "\<exists>train val test. time_split df train_end val_end = Inr (train, val, test)
     \<and> rows train @ rows val @ rows test = rows (sort_index df)
     \<and> mset (rows train) + mset (rows val) + mset (rows test) = mset (rows df)
     \<and> mset (index_of train) + mset (index_of val) + mset (index_of test) = mset (index_of df)
     \<and> mset (rows train) = filter_mset (\<lambda>r. date_of (fst r) \<le> train_end) (mset (rows df))
     \<and> mset (rows val)
         = filter_mset (\<lambda>r. train_end < date_of (fst r) \<and> date_of (fst r) \<le> val_end) (mset (rows df))
     \<and> mset (rows test) = filter_mset (\<lambda>r. val_end < date_of (fst r)) (mset (rows df))"
proof -
  let ?s = "rows (sort_index df)"
  let ?train = "loc_slice None (Some (day_end train_end)) (sort_index df)"
  let ?val = "loc_slice (Some (day_start (train_end + 1))) (Some (day_end val_end)) (sort_index df)"
  let ?test = "loc_slice (Some (day_start (val_end + 1))) None (sort_index df)"
  have r: "time_split df train_end val_end = Inr (?train, ?val, ?test)"
    using assms(1) by (rule time_split_Inr)
  have ms: "mset ?s = mset (rows df)" by (simp add: sort_index_def)
  have srt: "sorted (map (\<lambda>r. date_of (fst r)) ?s)"
    using sorted_sort_index [of df] by (intro sorted_dates) (simp add: index_of_def)
  have cat: "rows ?train @ rows ?val @ rows ?test = ?s"
    unfolding rows_train rows_val rows_test
    using sorted_three_way [OF srt, of train_end val_end] assms(2) by simp
  have all: "mset (rows ?train) + mset (rows ?val) + mset (rows ?test) = mset (rows df)"
    using cat ms by (metis mset_append add.assoc)
  have "mset (map fst (rows ?train @ rows ?val @ rows ?test)) = mset (map fst (rows df))"
    using cat ms by (metis mset_map)
  then have idx: "mset (index_of ?train) + mset (index_of ?val) + mset (index_of ?test)
                    = mset (index_of df)"
    by (simp add: index_of_def add.assoc)
  have tr: "mset (rows ?train) = filter_mset (\<lambda>r. date_of (fst r) \<le> train_end) (mset (rows df))"
    unfolding rows_train by (simp add: ms [symmetric])
  have va: "mset (rows ?val)
        = filter_mset (\<lambda>r. train_end < date_of (fst r) \<and> date_of (fst r) \<le> val_end) (mset (rows df))"
    unfolding rows_val by (simp add: ms [symmetric])
  have te: "mset (rows ?test) = filter_mset (\<lambda>r. val_end < date_of (fst r)) (mset (rows df))"
    unfolding rows_test by (simp add: ms [symmetric])
  show ?thesis using r cat all idx tr va te by blast
qed


lemma time_split_ex_unsorted:
  "time_split ex_unsorted 1 3
     = Inr (\<lparr>idx_kind = DatetimeIndex, columns = [''ret_B'', ''y''],
              rows = [(day_start 1, [Fin 1, Fin 10])]\<rparr>,
            \<lparr>idx_kind = DatetimeIndex, columns = [''ret_B'', ''y''],
              rows = [(day_start 2, [Fin 2, Fin 20]), (day_start 3 + 7, [Fin 3, Fin 30])]\<rparr>,
            \<lparr>idx_kind = DatetimeIndex, columns = [''ret_B'', ''y''],
              rows = [(day_start 5, [Fin 5, Fin 50])]\<rparr>)"
  by (simp add: time_split_def ensure_datetime_index_def sort_index_def loc_slice_def
      searchsorted_left_def searchsorted_right_def index_of_def day_start_def day_end_def
      ns_per_day_def ex_unsorted_def Let_def)

theorem time_split_partition_witness:
  "idx_kind ex_unsorted = DatetimeIndex \<and> (1::int) < 3
   \<and> (\<exists>train val test. time_split ex_unsorted 1 3 = Inr (train, val, test)
        \<and> rows train @ rows val @ rows test = rows (sort_index ex_unsorted)
        \<and> mset (rows train) + mset (rows val) + mset (rows test) = mset (rows ex_unsorted))"
proof -
  have h1: "idx_kind ex_unsorted = DatetimeIndex" by (simp add: ex_unsorted_def)
  have h2: "(1::int) < 3" by simp
  from time_split_partition [OF h1 h2] obtain train val test
    where "time_split ex_unsorted 1 3 = Inr (train, val, test)"
      and "rows train @ rows val @ rows test = rows (sort_index ex_unsorted)"
      and "mset (rows train) + mset (rows val) + mset (rows test) = mset (rows ex_unsorted)"
    by auto
  then have "\<exists>train val test. time_split ex_unsorted 1 3 = Inr (train, val, test)
        \<and> rows train @ rows val @ rows test = rows (sort_index ex_unsorted)
        \<and> mset (rows train) + mset (rows val) + mset (rows test) = mset (rows ex_unsorted)"
    by auto
  then show ?thesis using h1 h2 by simp
qed

text \<open>
  C8 (as stated, refuted).  The frame \<open>ex_unsorted\<close> has a time index that is not in time
  order; \<open>time_split\<close> does not fail on it but returns the split of its rows sorted by time.
\<close>

theorem time_split_unordered_counterexample:
  "idx_kind ex_unsorted = DatetimeIndex \<and> \<not> sorted (index_of ex_unsorted)
   \<and> time_split ex_unsorted 1 3
     = Inr (\<lparr>idx_kind = DatetimeIndex, columns = [''ret_B'', ''y''],
              rows = [(day_start 1, [Fin 1, Fin 10])]\<rparr>,
            \<lparr>idx_kind = DatetimeIndex, columns = [''ret_B'', ''y''],
              rows = [(day_start 2, [Fin 2, Fin 20]), (day_start 3 + 7, [Fin 3, Fin 30])]\<rparr>,
            \<lparr>idx_kind = DatetimeIndex, columns = [''ret_B'', ''y''],
              rows = [(day_start 5, [Fin 5, Fin 50])]\<rparr>)"
  using time_split_ex_unsorted
  by (simp add: ex_unsorted_def index_of_def day_start_def ns_per_day_def)

text \<open>
  C8 (amended).  \<open>time_split\<close> fails, with a type error, exactly when the index of its
  input is not a time index.  An input whose time index is not in time order is accepted:
  the splitter sorts it by time first, so its result is the result on the sorted input,
  and the three slices together are in time order.
\<close>

theorem time_split_errors:
  "(idx_kind df \<noteq> DatetimeIndex \<longrightarrow> time_split df train_end val_end = Inl TypeError)
   \<and> (idx_kind df = DatetimeIndex \<longrightarrow>
        (\<exists>train val test. time_split df train_end val_end = Inr (train, val, test)
           \<and> time_split (sort_index df) train_end val_end = Inr (train, val, test)
           \<and> sorted (index_of train) \<and> sorted (index_of val) \<and> sorted (index_of test)))"
proof (intro conjI impI)
  assume "idx_kind df \<noteq> DatetimeIndex"
  then show "time_split df train_end val_end = Inl TypeError"
    by (simp add: time_split_def ensure_datetime_index_def)
next
  assume dt: "idx_kind df = DatetimeIndex"
  let ?train = "loc_slice None (Some (day_end train_end)) (sort_index df)"
  let ?val = "loc_slice (Some (day_start (train_end + 1))) (Some (day_end val_end)) (sort_index df)"
  let ?test = "loc_slice (Some (day_start (val_end + 1))) None (sort_index df)"
  have idem: "sort_index (sort_index df) = sort_index df"
    using sorted_sort_index [of df]
    by (simp add: sort_index_def index_of_def sort_key_id_if_sorted)
  have r: "time_split df train_end val_end = Inr (?train, ?val, ?test)"
    using dt by (rule time_split_Inr)
  have "idx_kind (sort_index df) = DatetimeIndex" using dt by (simp add: sort_index_def)
  then have r': "time_split (sort_index df) train_end val_end = Inr (?train, ?val, ?test)"
    using time_split_Inr [of "sort_index df" train_end val_end] by (simp add: idem)
  have s: "sorted (map fst (rows (sort_index df)))"
    using sorted_sort_index [of df] by (simp add: index_of_def)
  have "sorted (index_of ?train)" "sorted (index_of ?val)" "sorted (index_of ?test)"
    using s by (simp_all add: index_of_def loc_slice_rows [OF sorted_sort_index] sorted_filter_map)
  then show "\<exists>train val test. time_split df train_end val_end = Inr (train, val, test)
           \<and> time_split (sort_index df) train_end val_end = Inr (train, val, test)
           \<and> sorted (index_of train) \<and> sorted (index_of val) \<and> sorted (index_of test)"
    using r r' by blast
qed

theorem time_split_errors_witness:
  "time_split (ex_unsorted\<lparr>idx_kind := OtherIndex\<rparr>) 1 3 = Inl TypeError
   \<and> (\<exists>train val test. time_split ex_unsorted 1 3 = Inr (train, val, test)
        \<and> time_split (sort_index ex_unsorted) 1 3 = Inr (train, val, test))"
proof -
  have h1: "idx_kind (ex_unsorted\<lparr>idx_kind := OtherIndex\<rparr>) \<noteq> DatetimeIndex" by simp
  have h2: "idx_kind ex_unsorted = DatetimeIndex" by (simp add: ex_unsorted_def)
  show ?thesis
    using time_split_errors [of "ex_unsorted\<lparr>idx_kind := OtherIndex\<rparr>" 1 3]
      time_split_errors [of ex_unsorted 1 3] h1 h2 by blast
qed

section \<open>Properties of cleaning, clipping and \<open>build_features\<close>\<close>

lemma inf_to_nan_not_inf: "\<not> is_inf (inf_to_nan c)"
  by (simp add: inf_to_nan_def is_inf_def)

lemma all_finite_clean: "all_finite (dropna (replace_inf_with_nan df))"
proof -
  have "\<And>vs. \<not> list_ex is_nan (map inf_to_nan vs) \<Longrightarrow> list_all is_finite (map inf_to_nan vs)"
    by (auto simp: list_all_iff list_ex_iff is_finite_def inf_to_nan_not_inf)
  then show ?thesis
    by (auto simp: all_finite_def dropna_def replace_inf_with_nan_def list_all_iff)
qed

lemma no_nan_dropna: "no_nan (dropna df)"
  by (auto simp: no_nan_def dropna_def list_all_iff)

lemma dropna_id: "no_nan df \<Longrightarrow> dropna df = df"
proof -
  assume "no_nan df"
  then have "filter (\<lambda>(t, vs). \<not> list_ex is_nan vs) (rows df) = rows df"
    by (auto simp: no_nan_def list_all_iff filter_id_conv)
  then show ?thesis by (simp add: dropna_def)
qed

lemma all_finite_no_nan: "all_finite df \<Longrightarrow> no_nan df"
  by (auto simp: all_finite_def no_nan_def list_all_iff list_ex_iff is_finite_def)

lemma replace_inf_id: "all_finite df \<Longrightarrow> replace_inf_with_nan df = df"
proof -
  assume a: "all_finite df"
  have "map (\<lambda>(t, vs). (t, map inf_to_nan vs)) (rows df) = rows df"
  proof (rule map_idI)
    fix r assume "r \<in> set (rows df)"
    then have "list_all is_finite (snd r)" using a by (auto simp: all_finite_def list_all_iff)
    then have "map inf_to_nan (snd r) = snd r"
      by (intro map_idI) (auto simp: list_all_iff is_finite_def inf_to_nan_def)
    then show "(case r of (t, vs) \<Rightarrow> (t, map inf_to_nan vs)) = r" by (cases r) simp
  qed
  then show ?thesis by (simp add: replace_inf_with_nan_def)
qed

lemma clip_bounds_not_nan:
  assumes "clip_bounds lower upper = (lo, hi)"
  shows "(\<forall>l. lo = Some l \<longrightarrow> \<not> is_nan l) \<and> (\<forall>u. hi = Some u \<longrightarrow> \<not> is_nan u)"
  using assms by (auto simp: clip_bounds_def Let_def split: if_splits)

lemma clip_bounds_not_inf:
  assumes "clip_bounds lower upper = (lo, hi)" and "\<not> is_inf lower" and "\<not> is_inf upper"
  shows "(\<forall>l. lo = Some l \<longrightarrow> \<not> is_inf l) \<and> (\<forall>u. hi = Some u \<longrightarrow> \<not> is_inf u)"
  using assms by (auto simp: clip_bounds_def Let_def split: if_splits)

lemma clip_with_scalar_cases:
  "clip_with_scalar lo hi c = c \<or> Some (clip_with_scalar lo hi c) = lo
     \<or> Some (clip_with_scalar lo hi c) = hi"
  by (auto simp: clip_with_scalar_def Let_def split: option.splits)

lemma clip_nan_iff: "is_nan (clip lower upper c) \<longleftrightarrow> is_nan c"
proof (cases "clip_bounds lower upper")
  case (Pair lo hi)
  note b = clip_bounds_not_nan [OF Pair]
  show ?thesis
  proof (cases "is_nan c")
    case True
    then show ?thesis by (simp add: clip_def Pair clip_with_scalar_def split: option.splits)
  next
    case False
    then show ?thesis
      using clip_with_scalar_cases [of lo hi c] b by (auto simp: clip_def Pair)
  qed
qed

lemma clip_finite:
  assumes "\<not> is_inf lower" and "\<not> is_inf upper" and "is_finite c"
  shows "is_finite (clip lower upper c)"
proof (cases "clip_bounds lower upper")
  case (Pair lo hi)
  note b = clip_bounds_not_nan [OF Pair] clip_bounds_not_inf [OF Pair assms(1,2)]
  show ?thesis
    using clip_with_scalar_cases [of lo hi c] b assms(3)
    by (auto simp: clip_def Pair is_finite_def)
qed

lemma list_all_clip_row:
  assumes "list_all P vs" and "\<And>v. P v \<Longrightarrow> P (clip lower upper v)"
  shows "list_all P (clip_row lower upper cs vs)"
proof -
  have "\<forall>p \<in> set (zip [0..<length vs] vs). P (snd p)"
    using assms(1) by (auto simp: list_all_iff dest: set_zip_rightD)
  then show ?thesis using assms(2) by (auto simp: clip_row_def list_all_iff)
qed

lemma all_finite_clip:
  assumes "all_finite df" and "\<not> is_inf lower" and "\<not> is_inf upper"
  shows "all_finite (clip_ret_cols lower upper df)"
proof -
  have "\<And>vs. list_all is_finite vs \<Longrightarrow> list_all is_finite (clip_row lower upper (columns df) vs)"
    using assms(2,3) by (intro list_all_clip_row clip_finite)
  then show ?thesis using assms(1)
    by (auto simp: all_finite_def clip_ret_cols_def list_all_iff)
qed

lemma no_nan_clip:
  assumes "no_nan df"
  shows "no_nan (clip_ret_cols lower upper df)"
proof -
  have "\<And>vs. list_all (\<lambda>v. \<not> is_nan v) vs
          \<Longrightarrow> list_all (\<lambda>v. \<not> is_nan v) (clip_row lower upper (columns df) vs)"
    by (rule list_all_clip_row) (simp_all add: clip_nan_iff)
  then show ?thesis using assms
    by (auto simp: no_nan_def clip_ret_cols_def list_all_iff list_ex_iff)
qed

lemma clip_finite_exact:
  assumes "\<not> degenerate_bounds lower upper" and "is_finite c"
  shows "is_finite (clip lower upper c)"
proof -
  obtain x where c: "c = Fin x"
    using assms(2) by (cases c) (auto simp: is_finite_def is_nan_def is_inf_def)
  show ?thesis
    using assms(1) unfolding c
    by (cases lower; cases upper)
      (auto simp: clip_def clip_bounds_def clip_with_scalar_def degenerate_bounds_def
        is_finite_def is_nan_def is_inf_def Let_def)
qed

lemma clip_degenerate:
  assumes "degenerate_bounds lower upper" and "is_finite c"
  shows "is_inf (clip lower upper c)"
proof -
  obtain x where c: "c = Fin x"
    using assms(2) by (cases c) (auto simp: is_finite_def is_nan_def is_inf_def)
  show ?thesis
    using assms(1) unfolding c
    by (auto simp: clip_def clip_bounds_def clip_with_scalar_def degenerate_bounds_def
        is_nan_def is_inf_def Let_def)
qed

lemma all_finite_clip_exact:
  assumes "all_finite df" and "\<not> degenerate_bounds lower upper"
  shows "all_finite (clip_ret_cols lower upper df)"
proof -
  have "\<And>vs. list_all is_finite vs \<Longrightarrow> list_all is_finite (clip_row lower upper (columns df) vs)"
    using assms(2) by (intro list_all_clip_row clip_finite_exact)
  then show ?thesis using assms(1)
    by (auto simp: all_finite_def clip_ret_cols_def list_all_iff)
qed

lemma build_features_cases:
  assumes "build_features rel agg df inc c lo hi = Inr out"
  obtains pre where "out = (if c then clip_ret_cols lo hi (dropna (replace_inf_with_nan pre))
                            else dropna (replace_inf_with_nan pre))"
  using assms by (auto simp: build_features_def Let_def split: if_splits sum.splits)


lemmas feature_eval_defs =
  build_features_def sort_index_def pct_change_def pct_rows_def concat_cols_def
  replace_inf_with_nan_def dropna_def clip_ret_cols_def clip_row_def clip_def clip_bounds_def
  clip_with_scalar_def inf_to_nan_def is_nan_def is_inf_def startswith_def Let_def

lemma build_features_ex_inf:
  "build_features simple_rel count_agg ex_prices False True PInf PInf = Inr ex_features_inf"
  by (simp add: feature_eval_defs ex_prices_def ex_features_inf_def day_start_def ns_per_day_def
      upt_rec)

lemma build_features_ex_clipped:
  "build_features simple_rel count_agg ex_prices False True (Fin (- 0.2)) (Fin 0.2)
     = Inr ex_features"
  by (simp add: feature_eval_defs ex_prices_def ex_features_def day_start_def ns_per_day_def
      upt_rec)

lemma build_dataset_ex:
  "build_dataset ex_features ''A'' 1
     = Inr (\<lparr>idx_kind = DatetimeIndex, columns = [''ret_B''], rows = [(day_start 1, [Fin 0])]\<rparr>,
            [''ret_B''],
            \<lparr>idx_kind = DatetimeIndex, columns = [''ret_B'', ''y''],
              rows = [(day_start 1, [Fin 0, Fin 0.2])]\<rparr>)"
  by (simp add: build_dataset_def make_xy_def target_col_of_def feature_cols_of_def
      select_cols_def get_col_def cell_at_def shift_def shift_vals_def iloc_upto_def py_stop_def
      index_of_def join_y_def assert_no_nan_def replace_inf_with_nan_def dropna_def
      inf_to_nan_def is_nan_def is_inf_def startswith_def ex_features_def Let_def)

lemma build_dataset_clean:
  assumes "build_dataset features_df T h = Inr (X, fc, data)"
  shows "all_finite data"
  using assms all_finite_clean
  by (auto simp: build_dataset_def Let_def split: sum.splits prod.splits)

text \<open>
  C5 (as stated, refuted).  With clipping enabled and both clip bounds \<open>+inf\<close> (a value the
  configuration accepts), every return of the feature matrix returned by \<open>build_features\<close>
  is \<open>+inf\<close>: the matrix contains infinite values.
\<close>

theorem build_features_infinite_counterexample:
  "build_features simple_rel count_agg ex_prices False True PInf PInf = Inr ex_features_inf
   \<and> \<not> all_finite ex_features_inf"
  using build_features_ex_inf
  by (simp add: all_finite_def is_finite_def is_inf_def ex_features_inf_def)

text \<open>
  C5 (amended).  For every price table and every setting of \<open>include_monthly\<close> and
  \<open>clip_returns\<close>: the feature matrix returned by \<open>build_features\<close> has no missing value,
  whatever the clip bounds (the drop of missing values comes before the clipping, and
  clipping never makes a value missing, so dropping again changes nothing).  It has no
  infinite value either, and the second cleaning pass of \<open>main\<close> leaves it as it is,
  unless clipping is on and the clip bounds are one of the four pairs \<open>(+inf, +inf)\<close>,
  \<open>(+inf, NaN)\<close>, \<open>(-inf, -inf)\<close>, \<open>(NaN, -inf)\<close>; with such a pair clipping turns every
  finite value into an infinity.  After the second pass of \<open>main\<close> the feature matrix,
  and the dataset built from it for any target and horizon, hold finite values only.
\<close>

theorem build_features_no_missing:
  assumes "build_features rel agg df_prices include_monthly clip_returns clip_low clip_high = Inr out"
  shows "no_nan out \<and> dropna out = out
     \<and> ((clip_returns \<longrightarrow> \<not> degenerate_bounds clip_low clip_high)
          \<longrightarrow> all_finite out \<and> dropna (replace_inf_with_nan out) = out)
     \<and> (degenerate_bounds clip_low clip_high
          \<longrightarrow> (\<forall>c. is_finite c \<longrightarrow> is_inf (clip clip_low clip_high c)))
     \<and> all_finite (dropna (replace_inf_with_nan out))
     \<and> (\<forall>T h X fc data.
           build_dataset (dropna (replace_inf_with_nan out)) T h = Inr (X, fc, data)
             \<longrightarrow> all_finite data)"
proof -
  obtain pre where out: "out = (if clip_returns
        then clip_ret_cols clip_low clip_high (dropna (replace_inf_with_nan pre))
        else dropna (replace_inf_with_nan pre))"
    using assms by (rule build_features_cases)
  have nn: "no_nan out"
    unfolding out using no_nan_clip [OF no_nan_dropna] no_nan_dropna by simp
  have fin: "all_finite out"
    if "clip_returns \<longrightarrow> \<not> degenerate_bounds clip_low clip_high"
    unfolding out using that all_finite_clip_exact [OF all_finite_clean] all_finite_clean by simp
  have again: "dropna (replace_inf_with_nan out) = out"
    if "clip_returns \<longrightarrow> \<not> degenerate_bounds clip_low clip_high"
    using fin [OF that] by (simp add: replace_inf_id dropna_id all_finite_no_nan)
  have deg: "degenerate_bounds clip_low clip_high
          \<longrightarrow> (\<forall>c. is_finite c \<longrightarrow> is_inf (clip clip_low clip_high c))"
    using clip_degenerate by blast
  show ?thesis
    using nn dropna_id [OF nn] fin again deg all_finite_clean build_dataset_clean by blast
qed

theorem build_features_no_missing_witness:
  "build_features simple_rel count_agg ex_prices False True (Fin (- 0.2)) (Fin 0.2) = Inr ex_features
   \<and> no_nan ex_features \<and> all_finite ex_features
   \<and> all_finite \<lparr>idx_kind = DatetimeIndex, columns = [''ret_B'', ''y''],
                   rows = [(day_start 1, [Fin 0, Fin 0.2])]\<rparr>
   \<and> build_features simple_rel count_agg ex_prices False True PInf PInf = Inr ex_features_inf
   \<and> no_nan ex_features_inf \<and> is_inf (clip PInf PInf (Fin 1))"
proof -
  note t = build_features_no_missing [OF build_features_ex_clipped]
  note u = build_features_no_missing [OF build_features_ex_inf]
  have b: "\<not> degenerate_bounds (Fin (- 0.2)) (Fin 0.2)" by (simp add: degenerate_bounds_def)
  have d: "degenerate_bounds PInf PInf" by (simp add: degenerate_bounds_def)
  have f: "is_finite (Fin 1)" by (simp add: is_finite_def is_nan_def is_inf_def)
  have same: "dropna (replace_inf_with_nan ex_features) = ex_features" using t b by blast
  have ds: "all_finite \<lparr>idx_kind = DatetimeIndex, columns = [''ret_B'', ''y''],
                   rows = [(day_start 1, [Fin 0, Fin 0.2])]\<rparr>"
    using t build_dataset_ex unfolding same by blast
  have i: "is_inf (clip PInf PInf (Fin 1))" using u d f by blast
  have n: "no_nan ex_features_inf" using u by blast
  show ?thesis using t b ds i n build_features_ex_clipped build_features_ex_inf by blast
qed

section \<open>Monthly aggregates: no lookahead\<close>

lemma butlast_upto: "butlast [a..b] = [a..b - 1]"
proof (cases "a \<le> b")
  case True
  then show ?thesis by (simp add: upto_rec2 [of a b])
next
  case False
  then show ?thesis by simp
qed

lemma upto_shift_down: "[a..b - 1] = map (\<lambda>k. k - 1) [a + 1..b]"
proof (induction "nat (b - a)" arbitrary: a)
  case 0
  then show ?case by simp
next
  case (Suc n)
  then have le: "a \<le> b - 1" and n: "n = nat (b - (a + 1))" by linarith+
  have "[a..b - 1] = a # [a + 1..b - 1]" using le by (simp add: upto_rec1)
  also have "[a + 1..b - 1] = map (\<lambda>k. k - 1) [a + 1 + 1..b]" using Suc.hyps(1) [OF n] .
  also have "a # map (\<lambda>k. k - 1) [a + 1 + 1..b] = map (\<lambda>k. k - 1) [a + 1..b]"
    using le by (simp add: upto_rec1 [of "a + 1" b])
  finally show ?case .
qed

lemma shift1_nonempty:
  "tbl \<noteq> [] \<Longrightarrow> shift1 w tbl = zip (map fst tbl) (replicate w NaN # butlast (map snd tbl))"
  by (cases tbl) (simp_all add: shift1_def)

lemma shift1_table:
  assumes "a \<le> b"
  shows "shift1 w (map (\<lambda>m. (m, f m)) [a..b])
           = (a, replicate w NaN) # map (\<lambda>m. (m, f (m - 1))) [a + 1..b]"
proof -
  have ne: "map (\<lambda>m. (m, f m)) [a..b] \<noteq> []" using assms by simp
  have "shift1 w (map (\<lambda>m. (m, f m)) [a..b])
          = zip [a..b] (replicate w NaN # butlast (map f [a..b]))"
    using shift1_nonempty [OF ne, of w] by (simp add: comp_def)
  also have "butlast (map f [a..b]) = map f [a..b - 1]"
    by (simp add: map_butlast [symmetric] butlast_upto)
  also have "map f [a..b - 1] = map (\<lambda>m. f (m - 1)) [a + 1..b]"
    by (simp add: upto_shift_down comp_def)
  also have "zip [a..b] (replicate w NaN # map (\<lambda>m. f (m - 1)) [a + 1..b])
          = (a, replicate w NaN) # zip [a + 1..b] (map (\<lambda>m. f (m - 1)) [a + 1..b])"
    using assms by (simp add: upto_rec1 [of a b])
  also have "zip [a + 1..b] (map (\<lambda>m. f (m - 1)) [a + 1..b]) = map (\<lambda>m. (m, f (m - 1))) [a + 1..b]"
    by (simp add: zip_map2 zip_same_conv_map)
  finally show ?thesis .
qed

lemma map_of_graph: "map_of (map (\<lambda>m. (m, g m)) ks) m = (if m \<in> set ks then Some (g m) else None)"
  by (induction ks) auto

lemma map_of_shift1_table:
  "map_of (shift1 w (map (\<lambda>m. (m, f m)) [a..b])) m
     = (if a \<le> m \<and> m \<le> b then Some (if m = a then replicate w NaN else f (m - 1)) else None)"
proof (cases "a \<le> b")
  case True
  show ?thesis
    unfolding shift1_table [OF True] using True by (auto simp: map_of_graph)
next
  case False
  then show ?thesis by (simp add: shift1_def)
qed

lemma length_monthly_columns: "length (monthly_columns cs) = 3 * length cs"
  by (induction cs) (simp_all add: monthly_columns_def stat_names_def)

lemma length_monthly_row: "length (monthly_row agg n rs m) = 3 * n"
proof -
  have "\<And>is. length (concat (map (\<lambda>i. map (\<lambda>s. agg s (map (\<lambda>r. cell_at (snd r) i)
            (filter (\<lambda>r. month_of (fst r) = m) rs))) stat_names) is)) = 3 * length is"
    subgoal for "is" by (induction "is") (simp_all add: stat_names_def)
    done
  from this [of "[0..<n]"] show ?thesis by (simp add: monthly_row_def)
qed

lemma monthly_row_earlier:
  "monthly_row agg n rs (m - 1) = monthly_row agg n (filter (\<lambda>r. month_of (fst r) < m) rs) (m - 1)"
proof -
  have "filter (\<lambda>r. month_of (fst r) = m - 1) (filter (\<lambda>r. month_of (fst r) < m) rs)
          = filter (\<lambda>r. month_of (fst r) = m - 1) rs"
    by (auto intro: filter_cong)
  then show ?thesis by (simp add: monthly_row_def del: filter_filter)
qed

lemma monthly_attached_cases:
  "monthly_attached agg df m = replicate (length (monthly_columns (columns df))) NaN
   \<or> monthly_attached agg df m
       = monthly_row agg (length (columns df)) (filter (\<lambda>r. month_of (fst r) < m) (rows df)) (m - 1)"
proof (cases "rows df")
  case Nil
  then show ?thesis
    by (simp add: monthly_attached_def monthly_table_def resample_months_def shift1_def)
next
  case (Cons r rest)
  define a where "a = month_of (fst r)"
  define b where "b = month_of (fst (last (rows df)))"
  define f where "f = monthly_row agg (length (columns df)) (rows df)"
  have tbl: "monthly_table agg df = map (\<lambda>m. (m, f m)) [a..b]"
    using Cons by (simp add: monthly_table_def resample_months_def a_def b_def f_def)
  show ?thesis
    unfolding monthly_attached_def Let_def tbl map_of_shift1_table
    using monthly_row_earlier [of agg "length (columns df)" "rows df" m]
    by (simp add: f_def)
qed

lemma length_monthly_attached:
  "length (monthly_attached agg df m) = length (monthly_columns (columns df))"
  using monthly_attached_cases [of agg df m]
  by (auto simp: length_monthly_row length_monthly_columns)


lemma monthly_join_rows:
  assumes "monthly_join agg df = Inr mj"
  shows "rows mj = map (\<lambda>(t, vs). (t, without_ym (columns df) vs @ monthly_attached agg df (month_of t)))
                     (rows df)"
  using assms by (auto simp: monthly_join_def split: if_splits)

lemma concat_cols_row:
  assumes "e \<in> set (rows (concat_cols a b))"
  shows "\<exists>vs ws. (fst e, vs) \<in> set (rows a) \<and> snd e = vs @ ws"
proof -
  from assms obtain p where p: "p \<in> set (zip (rows a) (rows b))"
    and e: "e = (case p of ((t, vs), (t', ws)) \<Rightarrow> (t, vs @ ws))"
    by (auto simp: concat_cols_def)
  obtain t vs t' ws where pp: "p = ((t, vs), (t', ws))" by (metis prod.collapse)
  have "(t, vs) \<in> set (rows a)" using p pp by (auto dest: set_zip_leftD)
  then show ?thesis using e pp by auto
qed

lemma build_features_monthly_rows:
  assumes "build_features rel agg df_prices True c lo hi = Inr out"
      and "(t, cs) \<in> set (rows out)"
  shows "\<exists>pv rv. cs = (if c then clip_row lo hi (columns out) else id)
                       (map inf_to_nan (pv @ monthly_attached agg (sort_index df_prices) (month_of t) @ rv))
               \<and> \<not> list_ex is_nan (map inf_to_nan
                       (pv @ monthly_attached agg (sort_index df_prices) (month_of t) @ rv))"
proof -
  let ?D = "sort_index df_prices"
  from assms(1) obtain mj where mj: "monthly_join agg ?D = Inr mj"
    and out: "out = (let o2 = dropna (replace_inf_with_nan (concat_cols mj (pct_change rel ?D)))
                     in if c then clip_ret_cols lo hi o2 else o2)"
    by (auto simp: build_features_def Let_def split: if_splits sum.splits)
  let ?cc = "concat_cols mj (pct_change rel ?D)"
  let ?o2 = "dropna (replace_inf_with_nan ?cc)"
  have cols: "columns out = columns ?o2"
    using out by (simp add: Let_def clip_ret_cols_def)
  have "\<exists>e \<in> set (rows ?o2). t = fst e \<and> cs = (if c then clip_row lo hi (columns out) else id) (snd e)"
  proof (cases c)
    case True
    then have "rows out = map (\<lambda>(t, vs). (t, clip_row lo hi (columns ?o2) vs)) (rows ?o2)"
      using out by (simp add: Let_def clip_ret_cols_def)
    then obtain e where e: "e \<in> set (rows ?o2)"
      and eq: "(t, cs) = (case e of (t, vs) \<Rightarrow> (t, clip_row lo hi (columns ?o2) vs))"
      using assms(2) by auto
    have "t = fst e \<and> cs = (if c then clip_row lo hi (columns out) else id) (snd e)"
      using eq True cols by (simp add: split_def)
    then show ?thesis using e by blast
  next
    case False
    then have "rows out = rows ?o2" using out by (simp add: Let_def)
    then have "(t, cs) \<in> set (rows ?o2)" using assms(2) by simp
    moreover have "t = fst (t, cs) \<and> cs = (if c then clip_row lo hi (columns out) else id) (snd (t, cs))"
      using False by simp
    ultimately show ?thesis by blast
  qed
  then obtain e where e: "e \<in> set (rows ?o2)" and te: "t = fst e"
    and cs: "cs = (if c then clip_row lo hi (columns out) else id) (snd e)" by blast
  from e obtain e0 where e0: "e0 \<in> set (rows ?cc)" and ee: "e = (fst e0, map inf_to_nan (snd e0))"
    and nn: "\<not> list_ex is_nan (map inf_to_nan (snd e0))"
    by (auto simp: dropna_def replace_inf_with_nan_def)
  from concat_cols_row [OF e0] obtain vs ws where a: "(fst e0, vs) \<in> set (rows mj)"
    and s0: "snd e0 = vs @ ws" by blast
  from a obtain vs0 where "vs = without_ym (columns ?D) vs0 @ monthly_attached agg ?D (month_of (fst e0))"
    unfolding monthly_join_rows [OF mj] by auto
  then have "snd e0 = without_ym (columns ?D) vs0 @ monthly_attached agg ?D (month_of t) @ ws"
    using s0 te ee by simp
  then show ?thesis using cs ee nn by auto
qed

lemma clip_row_nth:
  assumes "i < length vs"
  shows "clip_row lower upper cs vs ! i
           = (if i < length cs \<and> startswith (cs ! i) ''ret_'' then clip lower upper (vs ! i)
              else vs ! i)"
  using assms by (simp add: clip_row_def)

lemma length_clip_row: "length (clip_row lower upper cs vs) = length vs"
  by (simp add: clip_row_def)

lemma length_without_ym:
  "length vs = length cs \<Longrightarrow> length (without_ym cs vs) = length (without_ym cs cs)"
proof (induction vs cs rule: list_induct2)
  case Nil
  then show ?case by (simp add: without_ym_def)
next
  case (Cons v vs c cs)
  then show ?case by (simp add: without_ym_def)
qed

lemma pct_rows_lengths:
  assumes "list_all (\<lambda>r. length (snd r) = n) rs"
  shows "list_all (\<lambda>r. length (snd r) = n) (pct_rows rel rs)"
proof (cases rs)
  case Nil
  then show ?thesis by (simp add: pct_rows_def)
next
  case (Cons r rest)
  have all: "\<forall>x \<in> set rs. length (snd x) = n" using assms by (simp add: list_all_iff)
  have "\<forall>pc \<in> set (zip rs rest). length (snd (fst pc)) = n \<and> length (snd (snd pc)) = n"
  proof
    fix pc assume "pc \<in> set (zip rs rest)"
    then have "(fst pc, snd pc) \<in> set (zip rs rest)" by simp
    then have "fst pc \<in> set rs" "snd pc \<in> set rest"
      by (rule set_zip_leftD, rule set_zip_rightD)
    then show "length (snd (fst pc)) = n \<and> length (snd (snd pc)) = n"
      using all Cons by auto
  qed
  then show ?thesis using all Cons
    by (auto simp: pct_rows_def list_all_iff split_def)
qed

lemma concat_cols_row_both:
  assumes "e \<in> set (rows (concat_cols a b))"
  shows "\<exists>vs t' ws. (fst e, vs) \<in> set (rows a) \<and> (t', ws) \<in> set (rows b) \<and> snd e = vs @ ws"
proof -
  from assms obtain p where p: "p \<in> set (zip (rows a) (rows b))"
    and e: "e = (case p of ((t, vs), (t', ws)) \<Rightarrow> (t, vs @ ws))"
    by (auto simp: concat_cols_def)
  obtain t vs t' ws where pp: "p = ((t, vs), (t', ws))" by (metis prod.collapse)
  have "(t, vs) \<in> set (rows a)" "(t', ws) \<in> set (rows b)"
    using p pp by (auto dest: set_zip_leftD set_zip_rightD)
  then show ?thesis using e pp by auto
qed


lemma build_features_monthly_located:
  assumes "build_features rel agg df_prices True c lo hi = Inr out"
      and "list_all (\<lambda>r. length (snd r) = length (columns df_prices)) (rows df_prices)"
      and "(t, cs) \<in> set (rows out)"
  shows "\<exists>pv rv.
           length pv = length (without_ym (columns df_prices) (columns df_prices))
         \<and> length rv = length (columns df_prices)
         \<and> cs = (if c then clip_row lo hi (columns out) else id)
                  (map inf_to_nan (pv @ monthly_attached agg (sort_index df_prices) (month_of t) @ rv))
         \<and> \<not> list_ex is_nan
               (map inf_to_nan (pv @ monthly_attached agg (sort_index df_prices) (month_of t) @ rv))
         \<and> columns out = without_ym (columns df_prices) (columns df_prices)
                           @ monthly_columns (columns df_prices)
                           @ map (\<lambda>c. ''ret_'' @ c) (columns df_prices)"
proof -
  let ?D = "sort_index df_prices"
  let ?cols = "columns df_prices"
  have colsD: "columns ?D = ?cols" by (simp add: sort_index_def)
  have rectD: "list_all (\<lambda>r. length (snd r) = length ?cols) (rows ?D)"
    using assms(2) by (simp add: sort_index_def list_all_iff)
  from assms(1) obtain mj where mj: "monthly_join agg ?D = Inr mj"
    and out: "out = (let o2 = dropna (replace_inf_with_nan (concat_cols mj (pct_change rel ?D)))
                     in if c then clip_ret_cols lo hi o2 else o2)"
    by (auto simp: build_features_def Let_def split: if_splits sum.splits)
  let ?cc = "concat_cols mj (pct_change rel ?D)"
  let ?o2 = "dropna (replace_inf_with_nan ?cc)"
  have cmj: "columns mj = without_ym ?cols ?cols @ monthly_columns ?cols"
    using mj by (auto simp: monthly_join_def colsD split: if_splits)
  have co2: "columns ?o2 = without_ym ?cols ?cols @ monthly_columns ?cols
                            @ map (\<lambda>c. ''ret_'' @ c) ?cols"
    by (simp add: dropna_def replace_inf_with_nan_def concat_cols_def pct_change_def cmj colsD)
  have cols: "columns out = columns ?o2"
    using out by (simp add: Let_def clip_ret_cols_def)
  have "\<exists>e \<in> set (rows ?o2). t = fst e \<and> cs = (if c then clip_row lo hi (columns out) else id) (snd e)"
  proof (cases c)
    case True
    then have "rows out = map (\<lambda>(t, vs). (t, clip_row lo hi (columns ?o2) vs)) (rows ?o2)"
      using out by (simp add: Let_def clip_ret_cols_def)
    then obtain e where e: "e \<in> set (rows ?o2)"
      and eq: "(t, cs) = (case e of (t, vs) \<Rightarrow> (t, clip_row lo hi (columns ?o2) vs))"
      using assms(3) by auto
    have "t = fst e \<and> cs = (if c then clip_row lo hi (columns out) else id) (snd e)"
      using eq True cols by (simp add: split_def)
    then show ?thesis using e by blast
  next
    case False
    then have "rows out = rows ?o2" using out by (simp add: Let_def)
    then have "(t, cs) \<in> set (rows ?o2)" using assms(3) by simp
    moreover have "t = fst (t, cs) \<and> cs = (if c then clip_row lo hi (columns out) else id) (snd (t, cs))"
      using False by simp
    ultimately show ?thesis by blast
  qed
  then obtain e where e: "e \<in> set (rows ?o2)" and te: "t = fst e"
    and cs: "cs = (if c then clip_row lo hi (columns out) else id) (snd e)" by blast
  from e obtain e0 where e0: "e0 \<in> set (rows ?cc)" and ee: "e = (fst e0, map inf_to_nan (snd e0))"
    and nn: "\<not> list_ex is_nan (map inf_to_nan (snd e0))"
    by (auto simp: dropna_def replace_inf_with_nan_def)
  from concat_cols_row_both [OF e0] obtain vs t' ws where a: "(fst e0, vs) \<in> set (rows mj)"
    and b: "(t', ws) \<in> set (rows (pct_change rel ?D))"
    and s0: "snd e0 = vs @ ws" by blast
  from a obtain vs0 where v0: "(fst e0, vs0) \<in> set (rows ?D)"
    and vs: "vs = without_ym (columns ?D) vs0 @ monthly_attached agg ?D (month_of (fst e0))"
    unfolding monthly_join_rows [OF mj] by auto
  have "length vs0 = length ?cols" using rectD v0 by (auto simp: list_all_iff)
  then have lpv: "length (without_ym ?cols vs0) = length (without_ym ?cols ?cols)"
    by (rule length_without_ym)
  have "list_all (\<lambda>r. length (snd r) = length ?cols) (pct_rows rel (rows ?D))"
    using rectD by (rule pct_rows_lengths)
  then have lrv: "length ws = length ?cols"
    using b by (auto simp: pct_change_def list_all_iff)
  have pre: "snd e0 = without_ym ?cols vs0 @ monthly_attached agg ?D (month_of t) @ ws"
    using s0 vs te ee colsD by simp
  have c1: "cs = (if c then clip_row lo hi (columns out) else id)
                  (map inf_to_nan (without_ym ?cols vs0 @ monthly_attached agg ?D (month_of t) @ ws))"
    using cs ee pre by simp
  have c2: "\<not> list_ex is_nan
               (map inf_to_nan (without_ym ?cols vs0 @ monthly_attached agg ?D (month_of t) @ ws))"
    using nn pre by simp
  have c3: "columns out = without_ym ?cols ?cols @ monthly_columns ?cols
                           @ map (\<lambda>c. ''ret_'' @ c) ?cols"
    using cols co2 by simp
  show ?thesis
    by (rule exI [of _ "without_ym ?cols vs0"], rule exI [of _ ws]) (intro conjI lpv lrv c1 c2 c3)
qed


text \<open>
  C3.  With \<open>include_monthly\<close> enabled (and a price table whose rows all have one cell
  per column), the columns of the feature matrix are the price columns, then the monthly
  aggregate columns, then the return columns.  In every row, dated \<open>t\<close>, every cell
  under a monthly aggregate column is the corresponding aggregate computed by
  \<open>monthly_row\<close> over the price rows of the month before the month of \<open>t\<close> (clipped if the
  column's name starts with \<open>ret_\<close> and clipping is on): a function of the price rows of
  months strictly earlier than the month of \<open>t\<close> only.
\<close>

theorem monthly_no_lookahead:
  assumes "build_features rel agg df_prices True clip_returns clip_low clip_high = Inr out"
      and "list_all (\<lambda>r. length (snd r) = length (columns df_prices)) (rows df_prices)"
      and "(t, cs) \<in> set (rows out)"
  shows "columns out = without_ym (columns df_prices) (columns df_prices)
                       @ monthly_columns (columns df_prices)
                       @ map (\<lambda>c. ''ret_'' @ c) (columns df_prices)
       \<and> length cs = length (columns out)
       \<and> (\<forall>j < length (monthly_columns (columns df_prices)).
            columns out ! (length (without_ym (columns df_prices) (columns df_prices)) + j)
              = monthly_columns (columns df_prices) ! j
          \<and> is_finite
               (monthly_row agg (length (columns df_prices))
                  (filter (\<lambda>r. month_of (fst r) < month_of t) (rows (sort_index df_prices)))
                  (month_of t - 1) ! j)
          \<and> cs ! (length (without_ym (columns df_prices) (columns df_prices)) + j)
              = (if clip_returns \<and> startswith (monthly_columns (columns df_prices) ! j) ''ret_''
                 then clip clip_low clip_high
                        (monthly_row agg (length (columns df_prices))
                           (filter (\<lambda>r. month_of (fst r) < month_of t) (rows (sort_index df_prices)))
                           (month_of t - 1) ! j)
                 else monthly_row agg (length (columns df_prices))
                        (filter (\<lambda>r. month_of (fst r) < month_of t) (rows (sort_index df_prices)))
                        (month_of t - 1) ! j))"
proof -
  let ?cols = "columns df_prices"
  let ?D = "sort_index df_prices"
  let ?P = "without_ym ?cols ?cols"
  let ?Mc = "monthly_columns ?cols"
  let ?A = "monthly_attached agg ?D (month_of t)"
  let ?M = "monthly_row agg (length ?cols)
              (filter (\<lambda>r. month_of (fst r) < month_of t) (rows ?D)) (month_of t - 1)"
  have colsD: "columns ?D = ?cols" by (simp add: sort_index_def)
  from build_features_monthly_located [OF assms] obtain pv rv where
    lpv: "length pv = length ?P" and lrv: "length rv = length ?cols"
    and cs: "cs = (if clip_returns then clip_row clip_low clip_high (columns out) else id)
                    (map inf_to_nan (pv @ ?A @ rv))"
    and nn: "\<not> list_ex is_nan (map inf_to_nan (pv @ ?A @ rv))"
    and co: "columns out = ?P @ ?Mc @ map (\<lambda>c. ''ret_'' @ c) ?cols"
    by (elim exE conjE) (erule that, assumption+)
  have lA: "length ?A = length ?Mc"
    using length_monthly_attached [of agg ?D "month_of t"] colsD by simp
  have AM: "?A = ?M"
  proof (cases "?A = replicate (length (monthly_columns (columns ?D))) NaN")
    case True
    have "length (monthly_columns (columns ?D)) = 0"
    proof (rule ccontr)
      assume "length (monthly_columns (columns ?D)) \<noteq> 0"
      then have "NaN \<in> set ?A" using True by simp
      then have "NaN \<in> set (map inf_to_nan (pv @ ?A @ rv))"
        by (force simp: inf_to_nan_def is_inf_def)
      then show False using nn by (auto simp: list_ex_iff is_nan_def)
    qed
    then have "?A = []" "length ?M = 0"
      using True colsD by (simp_all add: length_monthly_row length_monthly_columns)
    then show ?thesis by simp
  next
    case False
    then show ?thesis using monthly_attached_cases [of agg ?D "month_of t"] colsD by simp
  qed
  let ?pre = "map inf_to_nan (pv @ ?A @ rv)"
  have lpre: "length ?pre = length (columns out)"
    using lpv lrv lA co by simp
  have lcs: "length cs = length (columns out)"
    unfolding cs using lpre by (simp add: length_clip_row)
  have each: "columns out ! (length ?P + j) = ?Mc ! j
          \<and> is_finite (?M ! j)
          \<and> cs ! (length ?P + j)
              = (if clip_returns \<and> startswith (?Mc ! j) ''ret_''
                 then clip clip_low clip_high (?M ! j) else ?M ! j)"
    if j: "j < length ?Mc" for j
  proof -
    have cj: "columns out ! (length ?P + j) = ?Mc ! j"
      using j co by (simp add: nth_append)
    have ij: "length ?P + j < length ?pre" using j lpre co by simp
    have pj: "?pre ! (length ?P + j) = inf_to_nan (?A ! j)"
      using j lA lpv ij by (simp add: nth_append)
    have "?pre ! (length ?P + j) \<in> set ?pre" using ij by (rule nth_mem)
    then have "\<not> is_nan (inf_to_nan (?A ! j))"
      using nn pj by (auto simp: list_ex_iff)
    then have fin: "is_finite (?A ! j)"
      by (auto simp: is_finite_def inf_to_nan_def is_nan_def split: if_splits)
    then have same: "inf_to_nan (?A ! j) = ?A ! j"
      by (simp add: is_finite_def inf_to_nan_def)
    have cell: "cs ! (length ?P + j)
              = (if clip_returns \<and> startswith (?Mc ! j) ''ret_''
                 then clip clip_low clip_high (?A ! j) else ?A ! j)"
    proof (cases clip_returns)
      case True
      have "cs ! (length ?P + j) = clip_row clip_low clip_high (columns out) ?pre ! (length ?P + j)"
        using True cs by simp
      also have "\<dots> = (if length ?P + j < length (columns out)
                            \<and> startswith (columns out ! (length ?P + j)) ''ret_''
                         then clip clip_low clip_high (?pre ! (length ?P + j))
                         else ?pre ! (length ?P + j))"
        using ij by (rule clip_row_nth)
      finally show ?thesis using True ij lpre cj pj same by simp
    next
      case False
      then show ?thesis using cs pj same by simp
    qed
    show ?thesis using cj fin cell unfolding AM by (intro conjI)
  qed
  have every: "\<forall>j < length ?Mc.
          columns out ! (length ?P + j) = ?Mc ! j
          \<and> is_finite (?M ! j)
          \<and> cs ! (length ?P + j)
              = (if clip_returns \<and> startswith (?Mc ! j) ''ret_''
                 then clip clip_low clip_high (?M ! j) else ?M ! j)"
  proof (intro allI impI)
    fix j assume "j < length ?Mc"
    then show "columns out ! (length ?P + j) = ?Mc ! j
          \<and> is_finite (?M ! j)
          \<and> cs ! (length ?P + j)
              = (if clip_returns \<and> startswith (?Mc ! j) ''ret_''
                 then clip clip_low clip_high (?M ! j) else ?M ! j)"
      by (rule each)
  qed
  show ?thesis using co lcs every by (intro conjI)
qed


lemma date_of_day_start: "date_of (day_start d) = d"
  by (simp add: date_of_def day_start_def ns_per_day_def)

lemma civil_year_month_ex:
  "civil_year_month 0 = (1970, 1)" "civil_year_month 1 = (1970, 1)"
  "civil_year_month 31 = (1970, 2)" "civil_year_month 32 = (1970, 2)"
  by code_simp+

lemma month_of_ex:
  "month_of (day_start 0) = 23640" "month_of (day_start 1) = 23640"
  "month_of (day_start 31) = 23641" "month_of (day_start 32) = 23641"
  by (simp_all add: month_of_def date_of_day_start civil_year_month_ex)

lemma upto_two: "[23640..23641] = [23640, 23641::int]"
  by (simp add: upto_rec1)

lemma build_features_ex_monthly:
  "build_features simple_rel count_agg ex_two_months True False NaN NaN = Inr ex_two_months_features"
proof -
  have s: "sort_index ex_two_months = \<lparr>idx_kind = DatetimeIndex, columns = [''A''],
     rows = [(day_start 0, [Fin 1]), (day_start 1, [Fin 2]), (day_start 31, [Fin 4]),
             (day_start 32, [Fin 8])]\<rparr>"
    by (simp add: sort_index_def ex_two_months_def day_start_def ns_per_day_def)
  have tbl: "shift1 3 (monthly_table count_agg (sort_index ex_two_months))
               = [(23640, [NaN, NaN, NaN]), (23641, [Fin 2, Fin 2, Fin 2])]"
    unfolding s
    by (simp add: monthly_table_def resample_months_def monthly_row_def month_of_ex upto_two
        shift1_def stat_names_def count_agg_def numeral_3_eq_3)
  have mc: "monthly_columns [''A''] = [''A_mean'', ''A_median'', ''A_std'']"
    by (simp add: monthly_columns_def stat_names_def)
  have wd: "length (monthly_columns (columns (sort_index ex_two_months))) = 3"
    by (simp add: s mc)
  have rep3: "replicate 3 NaN = [NaN, NaN, NaN]"
    by (simp add: numeral_3_eq_3)
  have att: "\<And>m. monthly_attached count_agg (sort_index ex_two_months) m
               = (if m = 23641 then [Fin 2, Fin 2, Fin 2] else [NaN, NaN, NaN])"
    unfolding monthly_attached_def Let_def wd tbl rep3 by simp
  have mj: "monthly_join count_agg (sort_index ex_two_months) =
     Inr \<lparr>idx_kind = DatetimeIndex, columns = [''A'', ''A_mean'', ''A_median'', ''A_std''],
      rows = [(day_start 0, [Fin 1, NaN, NaN, NaN]), (day_start 1, [Fin 2, NaN, NaN, NaN]),
              (day_start 31, [Fin 4, Fin 2, Fin 2, Fin 2]),
              (day_start 32, [Fin 8, Fin 2, Fin 2, Fin 2])]\<rparr>"
    unfolding monthly_join_def att
    by (simp add: s mc without_ym_def month_of_ex)
  have k: "idx_kind ex_two_months = DatetimeIndex" by (simp add: ex_two_months_def)
  show ?thesis
    unfolding build_features_def Let_def mj
    by (simp add: s k pct_change_def pct_rows_def concat_cols_def
        replace_inf_with_nan_def dropna_def inf_to_nan_def is_nan_def is_inf_def
        ex_two_months_features_def)
qed


theorem monthly_no_lookahead_witness:
  "build_features simple_rel count_agg ex_two_months True False NaN NaN = Inr ex_two_months_features
   \<and> list_all (\<lambda>r. length (snd r) = length (columns ex_two_months)) (rows ex_two_months)
   \<and> (day_start 31, [Fin 4, Fin 2, Fin 2, Fin 2, Fin 1]) \<in> set (rows ex_two_months_features)
   \<and> columns ex_two_months_features = [''A'', ''A_mean'', ''A_median'', ''A_std'', ''ret_A'']
   \<and> columns ex_two_months_features
         ! (length (without_ym (columns ex_two_months) (columns ex_two_months)) + 1)
       = monthly_columns (columns ex_two_months) ! 1
   \<and> [Fin 4, Fin 2, Fin 2, Fin 2, Fin 1]
         ! (length (without_ym (columns ex_two_months) (columns ex_two_months)) + 1)
       = monthly_row count_agg (length (columns ex_two_months))
           (filter (\<lambda>r. month_of (fst r) < month_of (day_start 31))
              (rows (sort_index ex_two_months)))
           (month_of (day_start 31) - 1) ! 1"
proof -
  have rect: "list_all (\<lambda>r. length (snd r) = length (columns ex_two_months)) (rows ex_two_months)"
    by (simp add: ex_two_months_def)
  have mem: "(day_start 31, [Fin 4, Fin 2, Fin 2, Fin 2, Fin 1]) \<in> set (rows ex_two_months_features)"
    by (simp add: ex_two_months_features_def)
  have j: "1 < length (monthly_columns (columns ex_two_months))"
    by (simp add: length_monthly_columns ex_two_months_def)
  note t = monthly_no_lookahead [OF build_features_ex_monthly rect mem]
  note tj = t [THEN conjunct2, THEN conjunct2, THEN spec, THEN mp, OF j]
  have c: "columns ex_two_months_features = [''A'', ''A_mean'', ''A_median'', ''A_std'', ''ret_A'']"
    by (simp add: ex_two_months_features_def)
  have a: "columns ex_two_months_features
         ! (length (without_ym (columns ex_two_months) (columns ex_two_months)) + 1)
       = monthly_columns (columns ex_two_months) ! 1"
    using tj by (rule conjunct1)
  have b: "[Fin 4, Fin 2, Fin 2, Fin 2, Fin 1]
         ! (length (without_ym (columns ex_two_months) (columns ex_two_months)) + 1)
       = monthly_row count_agg (length (columns ex_two_months))
           (filter (\<lambda>r. month_of (fst r) < month_of (day_start 31))
              (rows (sort_index ex_two_months)))
           (month_of (day_start 31) - 1) ! 1"
    using tj [THEN conjunct2, THEN conjunct2] by simp
  show ?thesis using build_features_ex_monthly rect mem c a b by (intro conjI)
qed

section \<open>Properties of \<open>load_prices_csv\<close>\<close>

lemma mset_dated_rows:
  "mset (dated_rows to_datetime i rs)
     = image_mset (\<lambda>r. (the (to_datetime (text_at r i)), drop_nth i r))
         (filter_mset (\<lambda>r. to_datetime (text_at r i) \<noteq> None) (mset rs))"
  by (induction rs) (auto simp: dated_rows_def split: option.splits)

lemma load_prices_csv_Inr:
  assumes "files path = Some raw" and "date_col \<in> set (raw_columns raw)"
  shows "load_prices_csv to_datetime parse_float files path date_col
     = Inr \<lparr>idx_kind = DatetimeIndex,
            columns = drop_nth (col_pos date_col (raw_columns raw)) (raw_columns raw),
            rows = map (\<lambda>(t, r). (t, map (coerce_numeric parse_float) r))
                     (sort_key fst (dated_rows to_datetime (col_pos date_col (raw_columns raw))
                        (raw_rows raw)))\<rparr>"
  using assms by (simp add: load_prices_csv_def Let_def)

lemma load_ex:
  "load_prices_csv ex_to_datetime ex_parse_float ex_files ''prices.csv'' ''Date''
     = Inr \<lparr>idx_kind = DatetimeIndex, columns = [''A''],
            rows = [(day_start 1, [Fin 1]), (day_start 1, [NaN]), (day_start 2, [Fin 3])]\<rparr>"
  by (simp add: load_prices_csv_def ex_files_def ex_to_datetime_def ex_parse_float_def
      dated_rows_def text_at_def drop_nth_def coerce_numeric_def day_start_def ns_per_day_def
      Let_def)

text \<open>
  C9 (as stated, refuted).  The file \<open>prices.csv\<close> of the example has two rows dated
  1970-01-02.  The loader keeps both: the index of the returned table holds that date
  twice, so it is neither strictly ascending nor free of duplicates.
\<close>

theorem load_prices_csv_duplicates_counterexample:
  "load_prices_csv ex_to_datetime ex_parse_float ex_files ''prices.csv'' ''Date''
     = Inr \<lparr>idx_kind = DatetimeIndex, columns = [''A''],
            rows = [(day_start 1, [Fin 1]), (day_start 1, [NaN]), (day_start 2, [Fin 3])]\<rparr>
   \<and> \<not> sorted_wrt (<) (index_of \<lparr>idx_kind = DatetimeIndex, columns = [''A''],
            rows = [(day_start 1, [Fin 1]), (day_start 1, [NaN]), (day_start 2, [Fin 3])]\<rparr>)
   \<and> \<not> distinct (index_of \<lparr>idx_kind = DatetimeIndex, columns = [''A''],
            rows = [(day_start 1, [Fin 1]), (day_start 1, [NaN]), (day_start 2, [Fin 3])]\<rparr>)"
  using load_ex by (simp add: index_of_def)

text \<open>
  C9 (amended).  For every file that exists and has the date column, the loader returns
  (without error) a table with a time index in ascending order, not necessarily strictly:
  rows with the same date are all kept.  Its rows are exactly the rows of the file whose
  date parses, each under its parsed date; rows with an unparsable date are dropped.
  Every cell is the parsed number of its text, and NaN when the text is not numeric.
\<close>

theorem load_prices_csv_result:
  assumes "files path = Some raw" and "date_col \<in> set (raw_columns raw)"
  shows "\<exists>df. load_prices_csv to_datetime parse_float files path date_col = Inr df
     \<and> idx_kind df = DatetimeIndex
     \<and> sorted (index_of df)
     \<and> mset (rows df)
         = image_mset (\<lambda>r. (the (to_datetime (text_at r (col_pos date_col (raw_columns raw)))),
                            map (coerce_numeric parse_float)
                              (drop_nth (col_pos date_col (raw_columns raw)) r)))
             (filter_mset (\<lambda>r. to_datetime (text_at r (col_pos date_col (raw_columns raw))) \<noteq> None)
                (mset (raw_rows raw)))
     \<and> (\<forall>s. parse_float s = None \<longrightarrow> coerce_numeric parse_float s = NaN)"
proof -
  let ?i = "col_pos date_col (raw_columns raw)"
  let ?k = "dated_rows to_datetime ?i (raw_rows raw)"
  let ?f = "\<lambda>(t, r). (t, map (coerce_numeric parse_float) r)"
  let ?df = "\<lparr>idx_kind = DatetimeIndex, columns = drop_nth ?i (raw_columns raw),
              rows = map ?f (sort_key fst ?k)\<rparr>"
  have r: "load_prices_csv to_datetime parse_float files path date_col = Inr ?df"
    using assms by (rule load_prices_csv_Inr)
  have "map fst (map ?f (sort_key fst ?k)) = map fst (sort_key fst ?k)"
    by (simp add: split_def)
  then have srt: "sorted (index_of ?df)"
    by (simp add: index_of_def sorted_sort_key del: map_map)
  have "mset (rows ?df) = image_mset ?f (mset ?k)" by simp
  also have "\<dots> = image_mset (\<lambda>r. (the (to_datetime (text_at r ?i)),
                            map (coerce_numeric parse_float) (drop_nth ?i r)))
             (filter_mset (\<lambda>r. to_datetime (text_at r ?i) \<noteq> None) (mset (raw_rows raw)))"
    by (simp add: mset_dated_rows multiset.map_comp comp_def)
  finally have ms: "mset (rows ?df) = image_mset (\<lambda>r. (the (to_datetime (text_at r ?i)),
                            map (coerce_numeric parse_float) (drop_nth ?i r)))
             (filter_mset (\<lambda>r. to_datetime (text_at r ?i) \<noteq> None) (mset (raw_rows raw)))" .
  have co: "\<forall>s. parse_float s = None \<longrightarrow> coerce_numeric parse_float s = NaN"
    by (simp add: coerce_numeric_def)
  have k: "idx_kind ?df = DatetimeIndex" by simp
  show ?thesis using r k srt ms co by blast
qed

theorem load_prices_csv_result_witness:
  "\<exists>df. load_prices_csv ex_to_datetime ex_parse_float ex_files ''prices.csv'' ''Date'' = Inr df
     \<and> idx_kind df = DatetimeIndex \<and> sorted (index_of df)"
proof -
  have f: "ex_files ''prices.csv'' = Some \<lparr>raw_columns = [''Date'', ''A''],
                 raw_rows = [[''1970-01-03'', ''3''], [''1970-01-02'', ''1''], [''n/a'', ''2''],
                             [''1970-01-02'', ''x'']]\<rparr>"
    by (simp add: ex_files_def)
  have c: "''Date'' \<in> set (raw_columns \<lparr>raw_columns = [''Date'', ''A''],
                 raw_rows = [[''1970-01-03'', ''3''], [''1970-01-02'', ''1''], [''n/a'', ''2''],
                             [''1970-01-02'', ''x'']]\<rparr>)"
    by simp
  from load_prices_csv_result [where files = ex_files and path = "''prices.csv''"
      and date_col = "''Date''" and to_datetime = ex_to_datetime and parse_float = ex_parse_float,
      OF f c]
  show ?thesis by blast
qed

section \<open>\<open>build_features\<close> leaves its input unchanged\<close>

lemma finish_store_props:
  assumes "out < length s" and "rets < length s"
  shows "\<exists>s'. finish_store s out rets c lo hi = (Inr (length s + 2), s')
           \<and> take (length s) s' = s \<and> length s' = length s + 3
           \<and> s' ! (length s + 2)
               = (let o2 = dropna (replace_inf_with_nan (concat_cols (s ! out) (s ! rets)))
                  in if c then clip_ret_cols lo hi o2 else o2)"
  using assms by (cases c) (simp_all add: finish_store_def Let_def nth_append)

lemma take_prefix_trans:
  assumes "take (length b) c = b" and "take (length a) b = a"
  shows "take (length a) c = a"
proof -
  have "length a \<le> length b" using assms(2) by (metis length_take min.cobounded1)
  then have "take (length a) c = take (length a) (take (length b) c)" by (simp add: min_def)
  then show ?thesis using assms by simp
qed


text \<open>
  C10.  \<open>build_features\<close> never changes its input: whatever the configuration, and also
  when it fails, every table that existed before the call (the input price table among
  them) is the same frame -- index, columns and cells -- after the call.  The result is
  a new table, and it holds what \<open>build_features\<close> computes from the input.
\<close>

theorem build_features_input_unchanged:
  assumes "df_prices < length s"
  shows "\<exists>res s'. build_features_store rel agg s df_prices include_monthly clip_returns clip_low clip_high
                    = (res, s')
     \<and> take (length s) s' = s
     \<and> s' ! df_prices = s ! df_prices
     \<and> (case res of
           Inl e \<Rightarrow> build_features rel agg (s ! df_prices) include_monthly clip_returns clip_low clip_high
                     = Inl e
         | Inr r \<Rightarrow> length s \<le> r \<and> r < length s'
                   \<and> build_features rel agg (s ! df_prices) include_monthly clip_returns clip_low clip_high
                       = Inr (s' ! r))"
proof -
  let ?P = "s ! df_prices"
  let ?D = "sort_index ?P"
  let ?n = "length s"
  let ?s4 = "s @ [?D, ?D, pct_change rel ?D, ?D]"
  have keep: "\<And>res s'. take ?n s' = s \<Longrightarrow> s' ! df_prices = ?P"
    using assms by (metis nth_take)
  have main: "\<exists>res s'. build_features_store rel agg s df_prices include_monthly clip_returns clip_low clip_high
                    = (res, s')
     \<and> take ?n s' = s
     \<and> (case res of
           Inl e \<Rightarrow> build_features rel agg ?P include_monthly clip_returns clip_low clip_high = Inl e
         | Inr r \<Rightarrow> ?n \<le> r \<and> r < length s'
                   \<and> build_features rel agg ?P include_monthly clip_returns clip_low clip_high
                       = Inr (s' ! r))"
  proof (cases "idx_kind ?P = DatetimeIndex")
    case False
    then show ?thesis by (simp add: build_features_store_def build_features_def)
  next
    case dt: True
    show ?thesis
    proof (cases include_monthly)
      case False
      have run: "build_features_store rel agg s df_prices include_monthly clip_returns clip_low clip_high
                   = finish_store ?s4 (?n + 3) (?n + 2) clip_returns clip_low clip_high"
        using dt False by (simp add: build_features_store_def Let_def nth_append)
      obtain s' where f: "finish_store ?s4 (?n + 3) (?n + 2) clip_returns clip_low clip_high
                            = (Inr (length ?s4 + 2), s')"
        and pre: "take (length ?s4) s' = ?s4" and len: "length s' = length ?s4 + 3"
        and val: "s' ! (length ?s4 + 2)
               = (let o2 = dropna (replace_inf_with_nan (concat_cols (?s4 ! (?n + 3)) (?s4 ! (?n + 2))))
                  in if clip_returns then clip_ret_cols clip_low clip_high o2 else o2)"
        using finish_store_props [of "?n + 3" ?s4 "?n + 2" clip_returns clip_low clip_high] by auto
      have "take ?n ?s4 = s" by simp
      then have t: "take ?n s' = s" using pre by (rule take_prefix_trans [rotated])
      have pure: "build_features rel agg ?P include_monthly clip_returns clip_low clip_high
                    = Inr (s' ! (length ?s4 + 2))"
        unfolding val using dt False by (simp add: build_features_def Let_def nth_append)
      show ?thesis using run f t len pure by simp
    next
      case True
      let ?s5 = "?s4 @ [?D]"
      let ?s6 = "?s5[?n + 4 := with_ym (?s5 ! (?n + 4))]"
      have s6df: "?s6 ! (?n + 1) = ?D" by (simp add: nth_append)
      have s6pre: "take ?n ?s6 = s" by simp
      show ?thesis
      proof (cases "monthly_join agg ?D")
        case (Inl e)
        have run: "build_features_store rel agg s df_prices include_monthly clip_returns clip_low clip_high
                     = (Inl e, ?s6)"
          using dt True Inl s6df
          by (simp add: build_features_store_def Let_def nth_append del: list_update.simps)
        have pure: "build_features rel agg ?P include_monthly clip_returns clip_low clip_high = Inl e"
          using dt True Inl by (simp add: build_features_def Let_def)
        show ?thesis using run s6pre pure by simp
      next
        case (Inr joined)
        let ?s7 = "?s6 @ [joined]"
        have run: "build_features_store rel agg s df_prices include_monthly clip_returns clip_low clip_high
                     = finish_store ?s7 (?n + 5) (?n + 2) clip_returns clip_low clip_high"
          using dt True Inr s6df
          by (simp add: build_features_store_def Let_def nth_append del: list_update.simps)
        obtain s' where f: "finish_store ?s7 (?n + 5) (?n + 2) clip_returns clip_low clip_high
                              = (Inr (length ?s7 + 2), s')"
          and pre: "take (length ?s7) s' = ?s7" and len: "length s' = length ?s7 + 3"
          and val: "s' ! (length ?s7 + 2)
               = (let o2 = dropna (replace_inf_with_nan (concat_cols (?s7 ! (?n + 5)) (?s7 ! (?n + 2))))
                  in if clip_returns then clip_ret_cols clip_low clip_high o2 else o2)"
          using finish_store_props [of "?n + 5" ?s7 "?n + 2" clip_returns clip_low clip_high] by auto
        have "take ?n ?s7 = s" by simp
        then have t: "take ?n s' = s" using pre by (rule take_prefix_trans [rotated])
        have j: "?s7 ! (?n + 5) = joined" by (simp add: nth_append)
        have r: "?s7 ! (?n + 2) = pct_change rel ?D" by (simp add: nth_append)
        have pure: "build_features rel agg ?P include_monthly clip_returns clip_low clip_high
                      = Inr (s' ! (length ?s7 + 2))"
          unfolding val j r using dt True Inr by (simp add: build_features_def Let_def)
        show ?thesis using run f t len pure by simp
      qed
    qed
  qed
  then show ?thesis using keep by blast
qed


theorem build_features_input_unchanged_witness:
  "(1::nat) < length ex_store
   \<and> (\<exists>r s'. build_features_store simple_rel count_agg ex_store 1 False True (Fin (- 0.2)) (Fin 0.2)
                 = (Inr r, s')
        \<and> take (length ex_store) s' = ex_store \<and> s' ! 1 = ex_prices \<and> s' ! r = ex_features)"
proof -
  have l: "(1::nat) < length ex_store" by (simp add: ex_store_def)
  have p: "ex_store ! 1 = ex_prices" by (simp add: ex_store_def)
  obtain res s' where run: "build_features_store simple_rel count_agg ex_store 1 False True
                              (Fin (- 0.2)) (Fin 0.2) = (res, s')"
    and pre: "take (length ex_store) s' = ex_store" and same: "s' ! 1 = ex_store ! 1"
    and res: "(case res of
           Inl e \<Rightarrow> build_features simple_rel count_agg (ex_store ! 1) False True (Fin (- 0.2)) (Fin 0.2)
                     = Inl e
         | Inr r \<Rightarrow> length ex_store \<le> r \<and> r < length s'
                   \<and> build_features simple_rel count_agg (ex_store ! 1) False True (Fin (- 0.2)) (Fin 0.2)
                       = Inr (s' ! r))"
    using build_features_input_unchanged [OF l, of simple_rel count_agg False True "Fin (- 0.2)" "Fin 0.2"]
    by blast
  from res obtain r where "res = Inr r" and "s' ! r = ex_features"
    unfolding p build_features_ex_clipped by (cases res) auto
  then show ?thesis using l run pre same p by auto
qed

section \<open>Business-day arithmetic\<close>

lemma bday_add_one: "bday_add d 1 = next_business_day d"
proof -
  have w: "0 \<le> weekday d" "weekday d < 7" by (simp_all add: weekday_def)
  then consider "weekday d = 0" | "weekday d = 1" | "weekday d = 2" | "weekday d = 3"
    | "weekday d = 4" | "weekday d = 5" | "weekday d = 6" by linarith
  then show ?thesis
    by cases (simp_all add: bday_add_def adjust_ndays_def next_business_day_def Let_def)
qed

lemma bday_add_pos:
  assumes "0 < n"
  shows "bday_add d n =
     d + (7 * (n div 5)
          + (if n - 5 * (n div 5) = 0 \<and> weekday d > 4 then 4 - weekday d
             else if weekday d > 4 then (7 - weekday d) + (n - 5 * (n div 5) - 1)
             else if weekday d + (n - 5 * (n div 5)) \<le> 4 then n - 5 * (n div 5)
             else n - 5 * (n div 5) + 2))"
  using assms by (simp add: bday_add_def adjust_ndays_def Let_def)

lemma bday_add_step:
  assumes "1 \<le> n"
  shows "bday_add d (n + 1) = next_business_day (bday_add d n)"
proof -
  define q where "q = n div 5"
  define r where "r = n mod 5"
  have n: "n = 5 * q + r" and r: "0 \<le> r" "r < 5" and q: "0 \<le> q"
    using assms by (simp_all add: q_def r_def pos_imp_zdiv_nonneg_iff)
  have w: "0 \<le> weekday d" "weekday d < 7" by (simp_all add: weekday_def)
  have wk: "\<And>k. weekday (d + k) = (weekday d + k) mod 7"
    by (simp add: weekday_def mod_simps algebra_simps)
  have d5: "(5 * q + r) div 5 = q" "(5 * q + r + 1) div 5 = (if r = 4 then q + 1 else q)"
    using r by auto
  have b1: "bday_add d n = d + (7 * q
          + (if r = 0 \<and> weekday d > 4 then 4 - weekday d
             else if weekday d > 4 then (7 - weekday d) + (r - 1)
             else if weekday d + r \<le> 4 then r
             else r + 2))"
    using assms bday_add_pos [of n d] d5(1) by (simp add: n)
  have b2: "bday_add d (n + 1) = d + (7 * (if r = 4 then q + 1 else q)
          + (if (if r = 4 then 0 else r + 1) = 0 \<and> weekday d > 4 then 4 - weekday d
             else if weekday d > 4 then (7 - weekday d) + ((if r = 4 then 0 else r + 1) - 1)
             else if weekday d + (if r = 4 then 0 else r + 1) \<le> 4 then (if r = 4 then 0 else r + 1)
             else (if r = 4 then 0 else r + 1) + 2))"
    using assms bday_add_pos [of "n + 1" d] d5(2) by (simp add: n)
  consider "weekday d = 0" | "weekday d = 1" | "weekday d = 2" | "weekday d = 3"
    | "weekday d = 4" | "weekday d = 5" | "weekday d = 6" using w by linarith
  then show ?thesis
  proof cases
    case 1
    consider "r = 0" | "r = 1" | "r = 2" | "r = 3" | "r = 4" using r by linarith
    then show ?thesis
      by cases (simp_all add: b1 b2 next_business_day_def wk 1 mod_simps)
  next
    case 2
    consider "r = 0" | "r = 1" | "r = 2" | "r = 3" | "r = 4" using r by linarith
    then show ?thesis
      by cases (simp_all add: b1 b2 next_business_day_def wk 2 mod_simps)
  next
    case 3
    consider "r = 0" | "r = 1" | "r = 2" | "r = 3" | "r = 4" using r by linarith
    then show ?thesis
      by cases (simp_all add: b1 b2 next_business_day_def wk 3 mod_simps)
  next
    case 4
    consider "r = 0" | "r = 1" | "r = 2" | "r = 3" | "r = 4" using r by linarith
    then show ?thesis
      by cases (simp_all add: b1 b2 next_business_day_def wk 4 mod_simps)
  next
    case 5
    consider "r = 0" | "r = 1" | "r = 2" | "r = 3" | "r = 4" using r by linarith
    then show ?thesis
      by cases (simp_all add: b1 b2 next_business_day_def wk 5 mod_simps)
  next
    case 6
    consider "r = 0" | "r = 1" | "r = 2" | "r = 3" | "r = 4" using r by linarith
    then show ?thesis
      by cases (simp_all add: b1 b2 next_business_day_def wk 6 mod_simps)
  next
    case 7
    consider "r = 0" | "r = 1" | "r = 2" | "r = 3" | "r = 4" using r by linarith
    then show ?thesis
      by cases (simp_all add: b1 b2 next_business_day_def wk 7 mod_simps)
  qed
qed


lemma bday_add_nat: "1 \<le> n \<Longrightarrow> bday_add d (int n) = (next_business_day ^^ n) d"
proof (induction n rule: nat_induct_at_least)
  case base
  then show ?case by (simp add: bday_add_one)
next
  case (Suc n)
  have "bday_add d (int (Suc n)) = bday_add d (int n + 1)" by (simp add: add.commute)
  also have "\<dots> = next_business_day (bday_add d (int n))"
    using Suc.hyps by (intro bday_add_step) simp
  finally show ?case using Suc.IH by simp
qed

lemma bday_add_iterate:
  assumes "1 \<le> h"
  shows "bday_add d h = (next_business_day ^^ nat h) d"
  using bday_add_nat [of "nat h" d] assms by simp

lemma next_business_day_spec:
  "d < next_business_day d \<and> is_business_day (next_business_day d)
   \<and> (\<forall>e. d < e \<and> e < next_business_day d \<longrightarrow> \<not> is_business_day e)"
proof -
  have w: "0 \<le> weekday d" "weekday d < 7" by (simp_all add: weekday_def)
  have wk: "\<And>k. weekday (d + k) = (weekday d + k) mod 7"
    by (simp add: weekday_def mod_simps algebra_simps)
  have between: "\<And>e k. d < e \<Longrightarrow> e < d + k \<Longrightarrow> \<exists>j. 0 < j \<and> j < k \<and> e = d + j"
  proof -
    fix e k :: int assume "d < e" "e < d + k"
    then have "0 < e - d \<and> e - d < k \<and> e = d + (e - d)" by simp
    then show "\<exists>j. 0 < j \<and> j < k \<and> e = d + j" by blast
  qed
  consider "weekday d = 0" | "weekday d = 1" | "weekday d = 2" | "weekday d = 3"
    | "weekday d = 4" | "weekday d = 5" | "weekday d = 6" using w by linarith
  then show ?thesis
  proof cases
    case 5
    have "\<And>e. d < e \<Longrightarrow> e < d + 3 \<Longrightarrow> \<not> is_business_day e"
    proof -
      fix e assume "d < e" "e < d + 3"
      then have "e = d + 1 \<or> e = d + 2" by linarith
      then show "\<not> is_business_day e" by (auto simp: is_business_day_def wk 5)
    qed
    then show ?thesis by (simp add: next_business_day_def is_business_day_def wk 5)
  next
    case 6
    have "\<And>e. d < e \<Longrightarrow> e < d + 2 \<Longrightarrow> \<not> is_business_day e"
    proof -
      fix e assume "d < e" "e < d + 2"
      then have "e = d + 1" by linarith
      then show "\<not> is_business_day e" by (auto simp: is_business_day_def wk 6)
    qed
    then show ?thesis by (simp add: next_business_day_def is_business_day_def wk 6)
  qed (simp_all add: next_business_day_def is_business_day_def wk)
qed

section \<open>Properties of the training loop\<close>

lemma bnd_lift_Inr [simp]: "bnd (lift (Inr x)) f = f x"
  by (cases "f x") (simp add: bnd_def lift_def)

lemma bnd_lift_Inl [simp]: "bnd (lift (Inl e)) f = (Inl e, [])"
  by (simp add: bnd_def lift_def)






lemma build_dataset_ex': "build_dataset ex_features ''A'' 1 = Inr (ex_X, [''ret_B''], ex_data)"
  using build_dataset_ex by (simp add: ex_X_def ex_data_def)

lemma time_split_ex_data:
  "time_split ex_data 0 1 = Inr (ex_data\<lparr>rows := []\<rparr>, ex_data, ex_data\<lparr>rows := []\<rparr>)"
  by (simp add: time_split_def ensure_datetime_index_def sort_index_def loc_slice_def
      searchsorted_left_def searchsorted_right_def index_of_def day_start_def day_end_def
      ns_per_day_def ex_data_def Let_def)



section \<open>The latest forecast\<close>

lemma bnd_InrE:
  assumes "bnd m f = (Inr y, t)"
  obtains x t1 t2 where "m = (Inr x, t1)" and "f x = (Inr y, t2)" and "t = t1 @ t2"
  using assms by (cases m) (auto simp: bnd_def split: sum.splits prod.splits)

lemma lift_Inr_iff: "lift r = (Inr x, t) \<longleftrightarrow> r = Inr x \<and> t = []"
  by (auto simp: lift_def)

lemma call_Inr_iff: "call r ev = (Inr u, t) \<longleftrightarrow> r = None \<and> t = [ev]"
  by (auto simp: call_def split: option.splits)

lemma emit_Inr_iff: "emit ev = (Inr u, t) \<longleftrightarrow> t = [ev]"
  by (auto simp: emit_def)

lemma train_eval_publish_success:
  assumes "train_eval_publish ext cfg X fc train_df val_df test_df last_asof T h = (Inr (), trace)"
  shows "\<exists>run_id model vm vr tm tr tbl pred_last rest.
           start_run ext (run_name T h) = Inr run_id
         \<and> fit ext (select_cols train_df fc) (get_col train_df ''y'') = Inr model
         \<and> rows X \<noteq> []
         \<and> predict ext model (X\<lparr>rows := [last (rows X)]\<rparr>) = Inr (pred_last # rest)
         \<and> trace =
             [RunStarted (run_name T h) run_id, ParamsLogged run_id,
              MetricsLogged run_id [(''val_mae'', vm), (''val_rmse'', vr),
                                    (''test_mae'', tm), (''test_rmse'', tr)],
              ModelLogged run_id,
              Uploaded (cfg_pred_bucket cfg) (test_key T h) (PredictionsTest tbl),
              Uploaded (cfg_pred_bucket cfg) (forecast_key T h)
                (ForecastLatest (forecast_table last_asof T h pred_last run_id (created_at ext run_id))),
              Printed (Scores T h vm vr tm tr),
              Printed (UploadedKeys (test_key T h) (forecast_key T h))]"
  using assms unfolding train_eval_publish_def
  by (auto elim!: bnd_InrE
      simp: lift_Inr_iff call_Inr_iff emit_Inr_iff iloc_last_def first_of_def
      split: prod.splits if_splits list.splits)

lemma build_dataset_make_xy:
  assumes "build_dataset features_df T h = Inr (X, fc, data)"
  shows "\<exists>y. make_xy features_df T h = Inr (X, y, fc)"
proof (cases "make_xy features_df T h")
  case (Inl e)
  then show ?thesis using assms by (simp add: build_dataset_def)
next
  case (Inr r)
  obtain X' y' fc' where r: "r = (X', y', fc')" by (cases r) auto
  have "X' = X \<and> fc' = fc"
    using assms Inr r by (cases "join_y X' y'") (auto simp: build_dataset_def Let_def split: sum.splits)
  then show ?thesis using Inr r by simp
qed

lemma run_pair_not_skipped:
  assumes "build_dataset features_df T h = Inr (X, fc, data)"
      and "time_split data (cfg_train_end cfg) (cfg_val_end cfg) = Inr (train_df, val_df, test_df)"
      and "\<not> too_small cfg train_df val_df test_df"
  shows "run_pair ext cfg features_df last_asof T h
           = train_eval_publish ext cfg X fc train_df val_df test_df last_asof T h"
  using assms by (simp add: run_pair_def)


lemma forecast_artifacts_simps:
  "forecast_artifacts [] = []"
  "forecast_artifacts (ev # evs) = forecast_rows_of ev @ forecast_artifacts evs"
  by (simp_all add: forecast_artifacts_def)

text \<open>
  What a successful, non-skipped iteration uploads as its forecast, for any value of
  \<open>last_asof\<close>: one table with one row, predicted from the last row of the \<open>X\<close> that
  \<open>make_xy\<close> returned.
\<close>

lemma forecast_of_successful_pair:
  assumes "build_dataset features_df T h = Inr (X, fc, data)"
      and "time_split data (cfg_train_end cfg) (cfg_val_end cfg) = Inr (train_df, val_df, test_df)"
      and "\<not> too_small cfg train_df val_df test_df"
      and "run_pair ext cfg features_df last_asof T h = (Inr (), trace)"
      and "1 \<le> h"
  shows "\<exists>y run_id model pred_last rest.
           make_xy features_df T h = Inr (X, y, fc)
         \<and> start_run ext (run_name T h) = Inr run_id
         \<and> fit ext (select_cols train_df fc) (get_col train_df ''y'') = Inr model
         \<and> rows X \<noteq> []
         \<and> predict ext model (X\<lparr>rows := [last (rows X)]\<rparr>) = Inr (pred_last # rest)
         \<and> forecast_artifacts trace =
             [[\<lparr>f_asof_date = date_of last_asof,
                f_forecast_for_date = (next_business_day ^^ nat h) (date_of last_asof),
                f_target_ticker = T, f_horizon_days = h,
                f_pred_ret_next = pred_last,
                f_pred_sign = (if positive pred_last then 1 else 0),
                f_run_id = run_id, f_created_at = created_at ext run_id,
                f_split = ''forecast_latest''\<rparr>]]
         \<and> Uploaded (cfg_pred_bucket cfg) (forecast_key T h)
               (ForecastLatest
                 [\<lparr>f_asof_date = date_of last_asof,
                   f_forecast_for_date = (next_business_day ^^ nat h) (date_of last_asof),
                   f_target_ticker = T, f_horizon_days = h,
                   f_pred_ret_next = pred_last,
                   f_pred_sign = (if positive pred_last then 1 else 0),
                   f_run_id = run_id, f_created_at = created_at ext run_id,
                   f_split = ''forecast_latest''\<rparr>]) \<in> set trace"
proof -
  obtain y where mk: "make_xy features_df T h = Inr (X, y, fc)"
    using build_dataset_make_xy [OF assms(1)] by (elim exE)
  have tep: "train_eval_publish ext cfg X fc train_df val_df test_df last_asof T h = (Inr (), trace)"
    using run_pair_not_skipped [OF assms(1-3), of ext last_asof] assms(4) by simp
  obtain run_id model vm vr tm tr tbl pred_last rest where all:
    "start_run ext (run_name T h) = Inr run_id
         \<and> fit ext (select_cols train_df fc) (get_col train_df ''y'') = Inr model
         \<and> rows X \<noteq> []
         \<and> predict ext model (X\<lparr>rows := [last (rows X)]\<rparr>) = Inr (pred_last # rest)
         \<and> trace =
             [RunStarted (run_name T h) run_id, ParamsLogged run_id,
              MetricsLogged run_id [(''val_mae'', vm), (''val_rmse'', vr),
                                    (''test_mae'', tm), (''test_rmse'', tr)],
              ModelLogged run_id,
              Uploaded (cfg_pred_bucket cfg) (test_key T h) (PredictionsTest tbl),
              Uploaded (cfg_pred_bucket cfg) (forecast_key T h)
                (ForecastLatest (forecast_table last_asof T h pred_last run_id (created_at ext run_id))),
              Printed (Scores T h vm vr tm tr),
              Printed (UploadedKeys (test_key T h) (forecast_key T h))]"
    using train_eval_publish_success [OF tep] by (elim exE) (erule that)
  note sr = all [THEN conjunct1]
    and ft = all [THEN conjunct2, THEN conjunct1]
    and ne = all [THEN conjunct2, THEN conjunct2, THEN conjunct1]
    and pr = all [THEN conjunct2, THEN conjunct2, THEN conjunct2, THEN conjunct1]
    and tr = all [THEN conjunct2, THEN conjunct2, THEN conjunct2, THEN conjunct2]
  let ?row = "\<lparr>f_asof_date = date_of last_asof,
                f_forecast_for_date = (next_business_day ^^ nat h) (date_of last_asof),
                f_target_ticker = T, f_horizon_days = h,
                f_pred_ret_next = pred_last,
                f_pred_sign = (if positive pred_last then 1 else 0),
                f_run_id = run_id, f_created_at = created_at ext run_id,
                f_split = ''forecast_latest''\<rparr>"
  have tbl: "forecast_table last_asof T h pred_last run_id (created_at ext run_id) = [?row]"
    using assms(5) by (simp add: forecast_table_def bday_add_iterate)
  have fa: "forecast_artifacts trace = [[?row]]"
    unfolding tr tbl by (simp add: forecast_artifacts_simps)
  have up: "Uploaded (cfg_pred_bucket cfg) (forecast_key T h) (ForecastLatest [?row]) \<in> set trace"
    unfolding tr tbl by simp
  show ?thesis
    by (rule exI [of _ y], rule exI [of _ run_id], rule exI [of _ model],
        rule exI [of _ pred_last], rule exI [of _ rest])
      (intro conjI mk sr ft ne pr fa up)
qed


lemma time_split_ex_any:
  "time_split ex_data (cfg_train_end ex_cfg_any) (cfg_val_end ex_cfg_any)
     = Inr (ex_data\<lparr>rows := []\<rparr>, ex_data, ex_data\<lparr>rows := []\<rparr>)"
  using time_split_ex_data by (simp add: ex_cfg_any_def)

lemma not_too_small_ex:
  "\<not> too_small ex_cfg_any (ex_data\<lparr>rows := []\<rparr>) ex_data (ex_data\<lparr>rows := []\<rparr>)"
  by (simp add: too_small_def ex_cfg_any_def)

lemma run_pair_ex_ok:
  "fst (run_pair ex_ext ex_cfg_any ex_features (day_start 2) ''A'' 1) = Inr ()"
  unfolding run_pair_not_skipped [OF build_dataset_ex' time_split_ex_any not_too_small_ex]
  by (simp add: train_eval_publish_def bnd_def lift_def call_def emit_def ex_ext_def
      pred_test_table_def iloc_last_def first_of_def ex_X_def ex_data_def get_col_def
      select_cols_def)


lemma forecast_of_successful_pair_example:
  "\<exists>trace. run_pair ex_ext ex_cfg_any ex_features (day_start 2) ''A'' 1 = (Inr (), trace)
     \<and> forecast_artifacts trace =
         [[\<lparr>f_asof_date = 2, f_forecast_for_date = 4, f_target_ticker = ''A'',
            f_horizon_days = 1, f_pred_ret_next = Fin 1, f_pred_sign = 1,
            f_run_id = ''run1'', f_created_at = ''now'', f_split = ''forecast_latest''\<rparr>]]"
proof -
  obtain trace where run: "run_pair ex_ext ex_cfg_any ex_features (day_start 2) ''A'' 1
                             = (Inr (), trace)"
    using run_pair_ex_ok by (cases "run_pair ex_ext ex_cfg_any ex_features (day_start 2) ''A'' 1") simp
  have h: "(1::int) \<le> 1" by simp
  obtain y run_id model pred_last rest where
    sr: "start_run ex_ext (run_name ''A'' 1) = Inr run_id"
    and pr: "predict ex_ext model (ex_X\<lparr>rows := [last (rows ex_X)]\<rparr>) = Inr (pred_last # rest)"
    and fa: "forecast_artifacts trace =
             [[\<lparr>f_asof_date = date_of (day_start 2),
                f_forecast_for_date = (next_business_day ^^ nat 1) (date_of (day_start 2)),
                f_target_ticker = ''A'', f_horizon_days = 1,
                f_pred_ret_next = pred_last,
                f_pred_sign = (if positive pred_last then 1 else 0),
                f_run_id = run_id, f_created_at = created_at ex_ext run_id,
                f_split = ''forecast_latest''\<rparr>]]"
    using forecast_of_successful_pair [OF build_dataset_ex' time_split_ex_any not_too_small_ex run h]
    by (elim exE conjE) (erule that, assumption+)
  have r: "run_id = ''run1''" using sr by (simp add: ex_ext_def)
  have p: "pred_last = Fin 1" using pr by (simp add: ex_ext_def)
  have d: "(next_business_day ^^ nat 1) (date_of (day_start 2)) = 4"
    by (simp add: date_of_day_start next_business_day_def weekday_def)
  have "forecast_artifacts trace =
         [[\<lparr>f_asof_date = 2, f_forecast_for_date = 4, f_target_ticker = ''A'',
            f_horizon_days = 1, f_pred_ret_next = Fin 1, f_pred_sign = 1,
            f_run_id = ''run1'', f_created_at = ''now'', f_split = ''forecast_latest''\<rparr>]]"
    unfolding fa d r p by (simp add: date_of_day_start positive_def ex_ext_def)
  then show ?thesis using run by (intro exI conjI)
qed

section \<open>The forecast of \<open>main\<close> on an example\<close>

lemma positive_iff: "positive c \<longleftrightarrow> c = PInf \<or> (\<exists>x. c = Fin x \<and> 0 < x)"
  by (cases c) (simp_all add: positive_def)

lemma make_xy_last_row_label:
  assumes "make_xy df T h = Inr (X, y, fc)" and "1 \<le> h" and "h < int (length (rows df))"
  shows "rows X \<noteq> [] \<and> fst (last (rows X)) = index_of df ! (length (rows df) - 1 - nat h)"
proof -
  have in_cols: "target_col_of T \<in> set (columns df)"
    using assms(1) by (auto simp: make_xy_def Let_def split: if_splits)
  let ?k = "nat (int (length (rows df)) - h)"
  have k: "0 < ?k" "?k \<le> length (rows df)" using assms(2,3) by linarith+
  have ix: "index_of X = take ?k (index_of df)"
    using assms(1) make_xy_Inr [OF in_cols, of h] assms(2)
    by (auto simp: index_of_def iloc_upto_def select_cols_def py_stop_neg take_map split_def)
  then have len: "length (rows X) = ?k"
    using k by (metis index_of_def length_map length_take min.absorb2)
  then have ne: "rows X \<noteq> []" using k by auto
  have "fst (last (rows X)) = last (index_of X)"
    using ne by (simp add: index_of_def last_map)
  also have "\<dots> = index_of X ! (?k - 1)"
    using ne len by (simp add: last_conv_nth index_of_def)
  also have "\<dots> = index_of df ! (?k - 1)"
    unfolding ix using k by simp
  also have "?k - 1 = length (rows df) - 1 - nat h" using assms(2,3) by linarith
  finally show ?thesis using ne by simp
qed

lemma sort_ex5: "sort_index ex5_prices = ex5_prices"
  by (simp add: sort_index_def ex5_prices_def day_start_def ns_per_day_def)

lemma build_features_ex5:
  "build_features simple_rel count_agg ex5_prices False True (Fin (- 0.2)) (Fin 0.2)
     = Inr ex5_features"
  by (simp add: feature_eval_defs ex5_prices_def ex5_features_def day_start_def ns_per_day_def
      upt_rec)

lemma clean_ex5: "dropna (replace_inf_with_nan ex5_features) = ex5_features"
  by (simp add: dropna_def replace_inf_with_nan_def inf_to_nan_def is_nan_def is_inf_def
      ex5_features_def)

lemma assert_ex5: "assert_no_nan ex5_features = Inr ()"
  by (simp add: assert_no_nan_def is_nan_def ex5_features_def)

lemma last_asof_ex5: "last_asof_of ex5_features = Inr (day_start 4)"
  by (simp add: last_asof_of_def index_of_def ex5_features_def day_start_def ns_per_day_def)

lemma build_dataset_ex5: "build_dataset ex5_features ''A'' 1 = Inr (ex5_X, [''ret_B''], ex5_data)"
  by (simp add: build_dataset_def make_xy_def target_col_of_def feature_cols_of_def
      select_cols_def get_col_def cell_at_def shift_def shift_vals_def iloc_upto_def py_stop_def
      index_of_def join_y_def assert_no_nan_def replace_inf_with_nan_def dropna_def
      inf_to_nan_def is_nan_def is_inf_def startswith_def ex5_features_def ex5_X_def
      ex5_data_def day_start_def ns_per_day_def Let_def)


lemma time_split_ex5:
  "time_split ex5_data (cfg_train_end ex5_cfg) (cfg_val_end ex5_cfg)
     = Inr (ex5_data\<lparr>rows := [(day_start 1, [Fin 0, Fin 0.2])]\<rparr>,
            ex5_data\<lparr>rows := [(day_start 2, [Fin 0.2, Fin 0.2])]\<rparr>,
            ex5_data\<lparr>rows := [(day_start 3, [Fin 0, Fin 0])]\<rparr>)"
  by (simp add: time_split_def ensure_datetime_index_def sort_index_def loc_slice_def
      searchsorted_left_def searchsorted_right_def index_of_def day_start_def day_end_def
      ns_per_day_def ex5_data_def ex5_cfg_def Let_def)

lemma not_too_small_ex5:
  "\<not> too_small ex5_cfg (ex5_data\<lparr>rows := [(day_start 1, [Fin 0, Fin 0.2])]\<rparr>)
        (ex5_data\<lparr>rows := [(day_start 2, [Fin 0.2, Fin 0.2])]\<rparr>)
        (ex5_data\<lparr>rows := [(day_start 3, [Fin 0, Fin 0])]\<rparr>)"
  by (simp add: too_small_def ex5_cfg_def)

lemma forecast_date_ex5: "bday_add 4 1 = 5"
  by (simp add: bday_add_one next_business_day_def weekday_def)

lemma run_pair_ex5:
  "fst (run_pair ex_first_feature ex5_cfg ex5_features (day_start 4) ''A'' 1) = Inr ()"
  "forecast_artifacts (snd (run_pair ex_first_feature ex5_cfg ex5_features (day_start 4) ''A'' 1))
     = [[\<lparr>f_asof_date = 4, f_forecast_for_date = 5, f_target_ticker = ''A'',
          f_horizon_days = 1, f_pred_ret_next = Fin 0, f_pred_sign = 0,
          f_run_id = ''run1'', f_created_at = ''now'', f_split = ''forecast_latest''\<rparr>]]"
  unfolding run_pair_not_skipped [OF build_dataset_ex5 time_split_ex5 not_too_small_ex5]
  by (simp_all add: train_eval_publish_def bnd_def lift_def call_def emit_def ex_first_feature_def
      pred_test_table_def iloc_last_def first_of_def ex5_X_def ex5_data_def get_col_def
      select_cols_def cell_at_def forecast_artifacts_def forecast_table_def forecast_date_ex5
      date_of_day_start positive_def)


lemma forecast_artifacts_append:
  "forecast_artifacts (a @ b) = forecast_artifacts a @ forecast_artifacts b"
  by (simp add: forecast_artifacts_def)

lemma loop_pairs_ex5: "loop_pairs [''A''] 1 = [(''A'', 1)]"
  by (simp add: loop_pairs_def upto_rec1)

lemma main_body_ex5:
  "main_body ex_first_feature ex5_cfg simple_rel count_agg ex5_prices ''A'' 1 False
       (Fin (- 0.2)) (Fin 0.2)
     = (Inr (),
        Printed (Banner [''A''] 1 4 False)
        # snd (run_pair ex_first_feature ex5_cfg ex5_features (day_start 4) ''A'' 1)
        @ [Printed AllDone])"
proof -
  obtain tr where r: "run_pair ex_first_feature ex5_cfg ex5_features (day_start 4) ''A'' 1
                        = (Inr (), tr)"
    using run_pair_ex5(1)
    by (cases "run_pair ex_first_feature ex5_cfg ex5_features (day_start 4) ''A'' 1") simp
  have k: "ensure_datetime_index ex5_prices = Inr ()"
    by (simp add: ensure_datetime_index_def ex5_prices_def)
  have g: "get_target_tickers ex5_prices ''A'' = Inr [''A'']"
    by (simp add: get_target_tickers_def ex5_prices_def)
  show ?thesis
    unfolding main_body_def sort_ex5 k g build_features_ex5 bnd_lift_Inr clean_ex5 assert_ex5
      last_asof_ex5 loop_pairs_ex5
    by (simp add: r date_of_day_start bnd_def emit_def)
qed

lemma make_xy_ex5:
  "make_xy ex5_features ''A'' 1
     = Inr (ex5_X, [(day_start 1, Fin 0.2), (day_start 2, Fin 0.2), (day_start 3, Fin 0)],
            [''ret_B''])"
  by (simp add: make_xy_def target_col_of_def feature_cols_of_def
      select_cols_def get_col_def cell_at_def shift_def shift_vals_def iloc_upto_def py_stop_def
      index_of_def startswith_def ex5_features_def ex5_X_def Let_def)

text \<open>
  C7 (the code at a failing input).  Five days of prices, target \<open>A\<close>, horizon 1, a model
  that predicts the first feature of a row.  The run succeeds and uploads one forecast
  table with one row: asof date day 4 (the last date of the feature matrix), forecast for
  day 5 (the next business day), sign 0 for the prediction 0.  But the prediction is
  the model's value for the last row of \<open>X\<close>, and \<open>X\<close> has lost its last \<open>h\<close> rows in
  \<open>make_xy\<close>: that row is dated day 3.  The most recent feature row, the one dated the
  asof date, holds 0.1 in the feature column; the model's value for it is 0.1, whose
  sign indicator would be 1.
\<close>

theorem latest_forecast_stale_row:
  "fst (main_body ex_first_feature ex5_cfg simple_rel count_agg ex5_prices ''A'' 1 False
          (Fin (- 0.2)) (Fin 0.2)) = Inr ()
   \<and> forecast_artifacts
         (snd (main_body ex_first_feature ex5_cfg simple_rel count_agg ex5_prices ''A'' 1 False
                 (Fin (- 0.2)) (Fin 0.2)))
       = [[\<lparr>f_asof_date = 4, f_forecast_for_date = 5, f_target_ticker = ''A'',
            f_horizon_days = 1, f_pred_ret_next = Fin 0, f_pred_sign = 0,
            f_run_id = ''run1'', f_created_at = ''now'', f_split = ''forecast_latest''\<rparr>]]
   \<and> build_features simple_rel count_agg (sort_index ex5_prices) False True (Fin (- 0.2)) (Fin 0.2)
       = Inr ex5_features
   \<and> last_asof_of ex5_features = Inr (day_start 4)
   \<and> last (rows (select_cols ex5_features [''ret_B''])) = (day_start 4, [Fin 0.1])
   \<and> make_xy ex5_features ''A'' 1
       = Inr (ex5_X, [(day_start 1, Fin 0.2), (day_start 2, Fin 0.2), (day_start 3, Fin 0)],
              [''ret_B''])
   \<and> iloc_last ex5_X = Inr (ex5_X\<lparr>rows := [(day_start 3, [Fin 0])]\<rparr>)
   \<and> predict ex_first_feature () (ex5_X\<lparr>rows := [(day_start 3, [Fin 0])]\<rparr>) = Inr [Fin 0]
   \<and> predict ex_first_feature () (ex5_X\<lparr>rows := [(day_start 4, [Fin 0.1])]\<rparr>) = Inr [Fin 0.1]
   \<and> positive (Fin 0.1) \<and> \<not> positive (Fin 0)"
proof -
  have a: "fst (main_body ex_first_feature ex5_cfg simple_rel count_agg ex5_prices ''A'' 1 False
          (Fin (- 0.2)) (Fin 0.2)) = Inr ()"
    unfolding main_body_ex5 by simp
  have b: "forecast_artifacts
         (snd (main_body ex_first_feature ex5_cfg simple_rel count_agg ex5_prices ''A'' 1 False
                 (Fin (- 0.2)) (Fin 0.2)))
       = [[\<lparr>f_asof_date = 4, f_forecast_for_date = 5, f_target_ticker = ''A'',
            f_horizon_days = 1, f_pred_ret_next = Fin 0, f_pred_sign = 0,
            f_run_id = ''run1'', f_created_at = ''now'', f_split = ''forecast_latest''\<rparr>]]"
    unfolding main_body_ex5 snd_conv
    using forecast_artifacts_append
      [of "[Printed (Banner [''A''] 1 4 False)]"
          "snd (run_pair ex_first_feature ex5_cfg ex5_features (day_start 4) ''A'' 1)
           @ [Printed AllDone]"]
      forecast_artifacts_append
      [of "snd (run_pair ex_first_feature ex5_cfg ex5_features (day_start 4) ''A'' 1)"
          "[Printed AllDone]"]
    by (simp add: run_pair_ex5(2) forecast_artifacts_simps)
  have c: "build_features simple_rel count_agg (sort_index ex5_prices) False True
             (Fin (- 0.2)) (Fin 0.2) = Inr ex5_features"
    unfolding sort_ex5 by (rule build_features_ex5)
  have d: "last (rows (select_cols ex5_features [''ret_B''])) = (day_start 4, [Fin 0.1])"
    by (simp add: select_cols_def ex5_features_def cell_at_def)
  have e: "iloc_last ex5_X = Inr (ex5_X\<lparr>rows := [(day_start 3, [Fin 0])]\<rparr>)"
    by (simp add: iloc_last_def ex5_X_def)
  have f: "predict ex_first_feature () (ex5_X\<lparr>rows := [(day_start 3, [Fin 0])]\<rparr>) = Inr [Fin 0]"
    "predict ex_first_feature () (ex5_X\<lparr>rows := [(day_start 4, [Fin 0.1])]\<rparr>) = Inr [Fin 0.1]"
    by (simp_all add: ex_first_feature_def cell_at_def)
  have g: "positive (Fin 0.1)" "\<not> positive (Fin 0)" by (simp_all add: positive_def)
  show ?thesis using a b c last_asof_ex5 d make_xy_ex5 e f g by (intro conjI)
qed

end
